theory Spec2Isabelle
  imports Main
begin

section \<open>The docs-chat server (\<open>scripts/docs-chat/serve.ts\<close>) and its store factory\<close>

text \<open>
  The development is a shallow embedding of \<^verbatim>\<open>serve.ts\<close> and
  \<^verbatim>\<open>rag/store-factory.ts\<close>. The JavaScript numbers that the server computes with
  (request counts, the configured limit and window length, epoch milliseconds) are
  taken to be integers and are modelled as \<open>int\<close>. Every read of the clock
  (\<^verbatim>\<open>Date.now()\<close>) is an explicit argument. The in-memory map
  \<^verbatim>\<open>rateLimitStore\<close> is threaded through as a value.
\<close>

subsection \<open>JavaScript strings\<close>

text \<open>
  A JavaScript string is a sequence of UTF-16 code units; \<^verbatim>\<open>.length\<close> counts
  code units. A code unit is a natural number here. \<open>js\<close> turns an ASCII literal of the
  source text into that representation.
\<close>

type_synonym jsstring = "nat list"

definition js :: "string \<Rightarrow> jsstring" where
  "js s = map of_char s"

text \<open>
  \<^verbatim>\<open>String.prototype.trim\<close> removes leading and trailing code units that are
  ECMAScript WhiteSpace or LineTerminator: TAB, LF, VT, FF, CR, SP, NBSP, U+1680,
  U+2000..U+200A, U+2028, U+2029, U+202F, U+205F, U+3000 and U+FEFF.
\<close>

definition is_js_space :: "nat \<Rightarrow> bool" where
  "is_js_space c =
     (c = 9 \<or> c = 10 \<or> c = 11 \<or> c = 12 \<or> c = 13 \<or> c = 32 \<or> c = 160 \<or> c = 5760 \<or>
      (8192 \<le> c \<and> c \<le> 8202) \<or> c = 8232 \<or> c = 8233 \<or> c = 8239 \<or> c = 8287 \<or>
      c = 12288 \<or> c = 65279)"

definition trim :: "jsstring \<Rightarrow> jsstring" where
  "trim s = rev (dropWhile is_js_space (rev (dropWhile is_js_space s)))"

text \<open>
  \<^verbatim>\<open>s.split(sep)\<close> for a separator of one code unit: the fields between the
  separators, in order; always at least one field.
\<close>

fun split :: "nat \<Rightarrow> jsstring \<Rightarrow> jsstring list" where
  "split sep [] = [[]]"
| "split sep (c # cs) =
     (if c = sep then [] # split sep cs
      else (case split sep cs of
              [] \<Rightarrow> [[c]]
            | f # fs \<Rightarrow> (c # f) # fs))"

text \<open>\<^verbatim>\<open>Array.prototype.join\<close> on strings.\<close>

fun join :: "jsstring \<Rightarrow> jsstring list \<Rightarrow> jsstring" where
  "join sep [] = []"
| "join sep [x] = x"
| "join sep (x # y # ys) = x @ sep @ join sep (y # ys)"

text \<open>
  \<^verbatim>\<open>Math.ceil(x / 1000)\<close> for an integer \<open>x\<close>.
\<close>

definition ceil_div_1000 :: "int \<Rightarrow> int" where
  "ceil_div_1000 x = - ((- x) div 1000)"

datatype js_error = TypeError

subsection \<open>Rate limiting\<close>

text \<open>
  \<^verbatim>\<open>RATE_LIMIT = Number(process.env.RATE_LIMIT || 20)\<close> and
  \<^verbatim>\<open>RATE_WINDOW_MS = Number(process.env.RATE_WINDOW_MS || 60_000)\<close> are read once
  at start-up; the configuration record holds the two numbers. A variable set to the
  text \<^verbatim>\<open>0\<close> is a non-empty string, so it is not replaced by the default: a limit of
  \<open>0\<close> is a configuration the server can run with.
\<close>

record config =
  RATE_LIMIT :: int
  RATE_WINDOW_MS :: int

definition MAX_MESSAGE_LENGTH :: nat where
  "MAX_MESSAGE_LENGTH = 2000"

definition MAX_BODY_SIZE :: nat where
  "MAX_BODY_SIZE = 8192"

record rate_record =
  count :: int
  resetAt :: int

type_synonym rate_store = "jsstring \<rightharpoonup> rate_record"

text \<open>The object \<^verbatim>\<open>{ allowed, remaining, resetAt }\<close> that \<^verbatim>\<open>checkRateLimit\<close> returns.\<close>

record rate_check =
  allowed :: bool
  remaining :: int
  check_resetAt :: int

text \<open>
  \<^verbatim>\<open>checkRateLimit(ip)\<close>, with \<open>now\<close> the value of \<^verbatim>\<open>Date.now()\<close> and the
  store before and after the call. \<^verbatim>\<open>record.count++\<close> mutates the object held by
  the map, which is the update of the map at \<open>ip\<close>.
\<close>

definition new_window :: "config \<Rightarrow> int \<Rightarrow> rate_store \<Rightarrow> jsstring \<Rightarrow> rate_check \<times> rate_store" where
  "new_window cfg now store ip =
     (\<lparr>allowed = True, remaining = RATE_LIMIT cfg - 1, check_resetAt = now + RATE_WINDOW_MS cfg\<rparr>,
      store(ip \<mapsto> \<lparr>count = 1, resetAt = now + RATE_WINDOW_MS cfg\<rparr>))"

definition checkRateLimit :: "config \<Rightarrow> int \<Rightarrow> rate_store \<Rightarrow> jsstring \<Rightarrow> rate_check \<times> rate_store" where
  "checkRateLimit cfg now store ip =
     (case store ip of
        None \<Rightarrow> new_window cfg now store ip
      | Some record \<Rightarrow>
          if now > resetAt record then new_window cfg now store ip
          else if count record \<ge> RATE_LIMIT cfg then
            (\<lparr>allowed = False, remaining = 0, check_resetAt = resetAt record\<rparr>, store)
          else
            (let record' = record\<lparr>count := count record + 1\<rparr> in
             (\<lparr>allowed = True, remaining = RATE_LIMIT cfg - count record',
               check_resetAt = resetAt record'\<rparr>,
              store(ip \<mapsto> record'))))"

text \<open>The periodic clean-up (\<^verbatim>\<open>setInterval\<close>): every expired entry is deleted.\<close>

definition sweep :: "int \<Rightarrow> rate_store \<Rightarrow> rate_store" where
  "sweep now store =
     (\<lambda>ip. case store ip of
             None \<Rightarrow> None
           | Some record \<Rightarrow> if now > resetAt record then None else Some record)"

subsection \<open>\<^verbatim>\<open>JSON.parse\<close>\<close>

text \<open>
  The server reads one property of the parsed request body. \<^verbatim>\<open>JSON.parse\<close> is the
  platform's parser of the JSON grammar (ECMA-404): first the text is cut into tokens,
  then the tokens are read with an explicit stack of the arrays and objects that are
  still open. A number keeps its text, since the server only ever asks for its type.
  \<open>None\<close> is the \<^verbatim>\<open>SyntaxError\<close> that \<^verbatim>\<open>JSON.parse\<close> throws.
\<close>

datatype json =
    JNull
  | JBool bool
  | JNumber jsstring
  | JString jsstring
  | JArray "json list"
  | JObject "(jsstring \<times> json) list"

datatype token =
    TLBrace | TRBrace | TLBracket | TRBracket | TColon | TComma
  | TString jsstring | TNumber jsstring | TTrue | TFalse | TNull

definition is_json_ws :: "nat \<Rightarrow> bool" where
  "is_json_ws c = (c = 9 \<or> c = 10 \<or> c = 13 \<or> c = 32)"

definition is_digit :: "nat \<Rightarrow> bool" where
  "is_digit c = (48 \<le> c \<and> c \<le> 57)"

definition hex_digit :: "nat \<Rightarrow> nat option" where
  "hex_digit c =
     (if 48 \<le> c \<and> c \<le> 57 then Some (c - 48)
      else if 97 \<le> c \<and> c \<le> 102 then Some (c - 87)
      else if 65 \<le> c \<and> c \<le> 70 then Some (c - 55)
      else None)"

text \<open>The code unit that follows a backslash, other than \<^verbatim>\<open>u\<close>.\<close>

definition unescape :: "nat \<Rightarrow> nat option" where
  "unescape e =
     (if e = 34 then Some 34
      else if e = 92 then Some 92
      else if e = 47 then Some 47
      else if e = 98 then Some 8
      else if e = 102 then Some 12
      else if e = 110 then Some 10
      else if e = 114 then Some 13
      else if e = 116 then Some 9
      else None)"

definition cons_result :: "'a \<Rightarrow> ('a list \<times> 'b) option \<Rightarrow> ('a list \<times> 'b) option" where
  "cons_result x r = (case r of None \<Rightarrow> None | Some (xs, rest) \<Rightarrow> Some (x # xs, rest))"

text \<open>Four hexadecimal digits after \<^verbatim>\<open>\u\<close>: the code unit they denote.\<close>

definition lex_hex4 :: "jsstring \<Rightarrow> (nat \<times> jsstring) option" where
  "lex_hex4 cs =
     (case cs of
        h1 # h2 # h3 # h4 # rest \<Rightarrow>
          (case hex_digit h1 of None \<Rightarrow> None | Some d1 \<Rightarrow>
          (case hex_digit h2 of None \<Rightarrow> None | Some d2 \<Rightarrow>
          (case hex_digit h3 of None \<Rightarrow> None | Some d3 \<Rightarrow>
          (case hex_digit h4 of None \<Rightarrow> None | Some d4 \<Rightarrow>
             Some (4096 * d1 + 256 * d2 + 16 * d3 + d4, rest)))))
      | _ \<Rightarrow> None)"

text \<open>What follows a backslash inside a string.\<close>

definition lex_escape :: "jsstring \<Rightarrow> (nat \<times> jsstring) option" where
  "lex_escape cs =
     (case cs of
        [] \<Rightarrow> None
      | e # cs' \<Rightarrow>
          if e = 117 then lex_hex4 cs'
          else (case unescape e of None \<Rightarrow> None | Some d \<Rightarrow> Some (d, cs')))"

lemma lex_hex4_shorter: "lex_hex4 cs = Some (d, rest) \<Longrightarrow> length rest < length cs"
  unfolding lex_hex4_def
  by (simp split: list.splits option.splits)

lemma lex_escape_shorter: "lex_escape cs = Some (d, rest) \<Longrightarrow> length rest < length cs"
  unfolding lex_escape_def
  by (cases cs) (auto split: if_splits option.splits dest: lex_hex4_shorter)

text \<open>The characters of a string after its opening quote, and the text after its closing quote.\<close>

function lex_string :: "jsstring \<Rightarrow> (jsstring \<times> jsstring) option" where
  "lex_string [] = None"
| "lex_string (c # cs) =
     (if c = 34 then Some ([], cs)
      else if c = 92 then
        (case lex_escape cs of
           None \<Rightarrow> None
         | Some (d, rest) \<Rightarrow> cons_result d (lex_string rest))
      else if c < 32 then None
      else cons_result c (lex_string cs))"
  by pat_completeness auto
termination
  by (relation "measure length") (auto dest: lex_escape_shorter)


lemma cons_result_rest:
  "cons_result x r = Some (ys, rest) \<Longrightarrow> \<exists>xs. r = Some (xs, rest)"
  by (auto simp: cons_result_def split: option.splits)

lemma lex_string_plain:
  "c \<noteq> 34 \<Longrightarrow> c \<noteq> 92 \<Longrightarrow> lex_string (c # cs) = Some (s, rest) \<Longrightarrow>
   \<not> c < 32 \<and> cons_result c (lex_string cs) = Some (s, rest)"
  by (simp split: if_splits)

lemma lex_string_escape:
  "lex_string (92 # cs) = Some (s, rest) \<Longrightarrow>
   \<exists>d r. lex_escape cs = Some (d, r) \<and> cons_result d (lex_string r) = Some (s, rest)"
  by (simp split: option.splits prod.splits)

lemma lex_string_shorter:
  "lex_string cs = Some (s, rest) \<Longrightarrow> length rest < length cs"
proof (induction cs arbitrary: s rule: lex_string.induct)
  case 1
  then show ?case by simp
next
  case (2 c cs)
  show ?case
  proof (cases "c = 34")
    case True
    with "2.prems" show ?thesis by simp
  next
    case quote: False
    show ?thesis
    proof (cases "c = 92")
      case False
      from lex_string_plain [OF quote False "2.prems"]
      have ctl: "\<not> c < 32" and cr: "cons_result c (lex_string cs) = Some (s, rest)"
        by simp_all
      from cons_result_rest [OF cr] obtain xs where "lex_string cs = Some (xs, rest)" ..
      from "2.IH"(2) [OF quote False ctl this] show ?thesis by simp
    next
      case True
      from "2.prems" True have "lex_string (92 # cs) = Some (s, rest)"
        by blast
      from lex_string_escape [OF this] obtain d r where e: "lex_escape cs = Some (d, r)"
        and c: "cons_result d (lex_string r) = Some (s, rest)"
        by blast
      from cons_result_rest [OF c] obtain xs where "lex_string r = Some (xs, rest)" ..
      from "2.IH"(1) [OF quote True e refl this] have "length rest < length r" .
      with lex_escape_shorter [OF e] show ?thesis by simp
    qed
  qed
qed


definition lex_int_part :: "jsstring \<Rightarrow> (jsstring \<times> jsstring) option" where
  "lex_int_part cs =
     (case cs of
        [] \<Rightarrow> None
      | c # r \<Rightarrow>
          if c = 48 then Some ([c], r)
          else if 49 \<le> c \<and> c \<le> 57 then Some (c # takeWhile is_digit r, dropWhile is_digit r)
          else None)"

text \<open>One digit or more.\<close>

definition lex_digits1 :: "jsstring \<Rightarrow> (jsstring \<times> jsstring) option" where
  "lex_digits1 cs =
     (if takeWhile is_digit cs = [] then None
      else Some (takeWhile is_digit cs, dropWhile is_digit cs))"

definition lex_frac_part :: "jsstring \<Rightarrow> (jsstring \<times> jsstring) option" where
  "lex_frac_part cs =
     (case cs of
        [] \<Rightarrow> Some ([], cs)
      | c # r \<Rightarrow> if c = 46 then cons_result c (lex_digits1 r) else Some ([], cs))"

definition lex_exp_part :: "jsstring \<Rightarrow> (jsstring \<times> jsstring) option" where
  "lex_exp_part cs =
     (case cs of
        [] \<Rightarrow> Some ([], cs)
      | c # r \<Rightarrow>
          if c = 101 \<or> c = 69 then
            (case r of
               [] \<Rightarrow> None
             | s # r' \<Rightarrow>
                 if s = 43 \<or> s = 45 then cons_result c (cons_result s (lex_digits1 r'))
                 else cons_result c (lex_digits1 r))
          else Some ([], cs))"

definition lex_unsigned :: "jsstring \<Rightarrow> (jsstring \<times> jsstring) option" where
  "lex_unsigned cs =
     (case lex_int_part cs of
        None \<Rightarrow> None
      | Some (ip, cs2) \<Rightarrow>
          (case lex_frac_part cs2 of
             None \<Rightarrow> None
           | Some (fp, cs3) \<Rightarrow>
               (case lex_exp_part cs3 of
                  None \<Rightarrow> None
                | Some (ep, cs4) \<Rightarrow> Some (ip @ fp @ ep, cs4))))"

text \<open>The text of a number (an optional minus sign, then the unsigned number) and the text after it.\<close>

definition lex_number :: "jsstring \<Rightarrow> (jsstring \<times> jsstring) option" where
  "lex_number cs =
     (case cs of
        [] \<Rightarrow> None
      | c # r \<Rightarrow> if c = 45 then cons_result c (lex_unsigned r) else lex_unsigned cs)"

lemma lex_digits1_shorter: "lex_digits1 cs = Some (d, rest) \<Longrightarrow> length rest \<le> length cs"
  unfolding lex_digits1_def
  by (auto split: if_splits simp: length_dropWhile_le)

lemma lex_int_part_shorter: "lex_int_part cs = Some (d, rest) \<Longrightarrow> length rest < length cs"
  unfolding lex_int_part_def
  by (cases cs) (auto split: if_splits simp: length_dropWhile_le less_Suc_eq_le)

lemma lex_frac_part_shorter: "lex_frac_part cs = Some (d, rest) \<Longrightarrow> length rest \<le> length cs"
  unfolding lex_frac_part_def
  by (cases cs) (auto split: if_splits dest!: cons_result_rest lex_digits1_shorter)

lemma lex_exp_part_shorter: "lex_exp_part cs = Some (d, rest) \<Longrightarrow> length rest \<le> length cs"
proof (cases cs)
  case Nil
  assume "lex_exp_part cs = Some (d, rest)"
  with Nil show ?thesis by (simp add: lex_exp_part_def)
next
  case (Cons c r)
  assume a: "lex_exp_part cs = Some (d, rest)"
  show ?thesis
  proof (cases r)
    case Nil
    with a Cons show ?thesis
      by (auto simp: lex_exp_part_def split: if_splits)
  next
    case inner: (Cons s r')
    with a Cons show ?thesis
      by (auto simp: lex_exp_part_def split: if_splits dest!: cons_result_rest lex_digits1_shorter)
  qed
qed

lemma lex_unsigned_shorter: "lex_unsigned cs = Some (d, rest) \<Longrightarrow> length rest < length cs"
  unfolding lex_unsigned_def
  by (auto split: option.splits
      dest!: lex_int_part_shorter lex_frac_part_shorter lex_exp_part_shorter)

lemma lex_number_shorter: "lex_number cs = Some (d, rest) \<Longrightarrow> length rest < length cs"
  unfolding lex_number_def
  by (cases cs) (auto split: if_splits dest!: cons_result_rest lex_unsigned_shorter)

definition cons_token :: "token \<Rightarrow> token list option \<Rightarrow> token list option" where
  "cons_token t r = (case r of None \<Rightarrow> None | Some ts \<Rightarrow> Some (t # ts))"

text \<open>
  The tokens of a text. White space between tokens is TAB, LF, CR and SP; the keywords
  are \<^verbatim>\<open>true\<close>, \<^verbatim>\<open>false\<close> and \<^verbatim>\<open>null\<close>.
\<close>

function lex :: "jsstring \<Rightarrow> token list option" where
  "lex [] = Some []"
| "lex (c # cs) =
     (if is_json_ws c then lex cs
      else if c = 123 then cons_token TLBrace (lex cs)
      else if c = 125 then cons_token TRBrace (lex cs)
      else if c = 91 then cons_token TLBracket (lex cs)
      else if c = 93 then cons_token TRBracket (lex cs)
      else if c = 58 then cons_token TColon (lex cs)
      else if c = 44 then cons_token TComma (lex cs)
      else if c = 34 then
        (case lex_string cs of
           None \<Rightarrow> None
         | Some (s, rest) \<Rightarrow> cons_token (TString s) (lex rest))
      else if c = 45 \<or> is_digit c then
        (case lex_number (c # cs) of
           None \<Rightarrow> None
         | Some (n, rest) \<Rightarrow> cons_token (TNumber n) (lex rest))
      else if c = 116 \<and> take 3 cs = [114, 117, 101] then cons_token TTrue (lex (drop 3 cs))
      else if c = 102 \<and> take 4 cs = [97, 108, 115, 101] then cons_token TFalse (lex (drop 4 cs))
      else if c = 110 \<and> take 3 cs = [117, 108, 108] then cons_token TNull (lex (drop 3 cs))
      else None)"
  by pat_completeness auto
termination
proof (relation "measure length")
  fix c cs x2 s rest
  assume "lex_string cs = Some x2" "(s, rest) = x2"
  then have "lex_string cs = Some (s, rest)" by simp
  from lex_string_shorter [OF this] show "(rest, c # cs) \<in> measure length" by simp
next
  fix c cs x2 n rest
  assume "lex_number (c # cs) = Some x2" "(n, rest) = x2"
  then have "lex_number (c # cs) = Some (n, rest)" by simp
  from lex_number_shorter [OF this] show "(rest, c # cs) \<in> measure length" by simp
qed simp_all



text \<open>
  The tokens are read with a stack of the open arrays and objects: \<open>parse_value\<close>
  expects a value, \<open>parse_after\<close> has just read the value \<open>v\<close> and continues in the
  innermost open array or object, or expects the end of the text when none is open.
\<close>

datatype frame = InArray "json list" | InObject "(jsstring \<times> json) list" jsstring

fun parse_value :: "frame list \<Rightarrow> token list \<Rightarrow> json option"
and parse_after :: "json \<Rightarrow> frame list \<Rightarrow> token list \<Rightarrow> json option" where
  "parse_value st [] = None"
| "parse_value st (t # ts) =
     (case t of
        TNull \<Rightarrow> parse_after JNull st ts
      | TTrue \<Rightarrow> parse_after (JBool True) st ts
      | TFalse \<Rightarrow> parse_after (JBool False) st ts
      | TNumber n \<Rightarrow> parse_after (JNumber n) st ts
      | TString s \<Rightarrow> parse_after (JString s) st ts
      | TLBracket \<Rightarrow>
          (case ts of
             TRBracket # ts' \<Rightarrow> parse_after (JArray []) st ts'
           | _ \<Rightarrow> parse_value (InArray [] # st) ts)
      | TLBrace \<Rightarrow>
          (case ts of
             TRBrace # ts' \<Rightarrow> parse_after (JObject []) st ts'
           | TString k # TColon # ts' \<Rightarrow> parse_value (InObject [] k # st) ts'
           | _ \<Rightarrow> None)
      | _ \<Rightarrow> None)"
| "parse_after v [] ts = (if ts = [] then Some v else None)"
| "parse_after v (InArray acc # st) ts =
     (case ts of
        TComma # ts' \<Rightarrow> parse_value (InArray (v # acc) # st) ts'
      | TRBracket # ts' \<Rightarrow> parse_after (JArray (rev (v # acc))) st ts'
      | _ \<Rightarrow> None)"
| "parse_after v (InObject acc k # st) ts =
     (case ts of
        TComma # TString k' # TColon # ts' \<Rightarrow> parse_value (InObject ((k, v) # acc) k' # st) ts'
      | TRBrace # ts' \<Rightarrow> parse_after (JObject (rev ((k, v) # acc))) st ts'
      | _ \<Rightarrow> None)"

definition JSON_parse :: "jsstring \<Rightarrow> json option" where
  "JSON_parse text = (case lex text of None \<Rightarrow> None | Some ts \<Rightarrow> parse_value [] ts)"

text \<open>
  The property read \<^verbatim>\<open>JSON.parse(...).message\<close>: a \<^verbatim>\<open>TypeError\<close> on
  \<^verbatim>\<open>null\<close>; on an object the value of its member \<^verbatim>\<open>message\<close> (the last one,
  when the text repeats the key) or \<^verbatim>\<open>undefined\<close>, which is \<open>None\<close>; on a number,
  a boolean, a string or an array \<^verbatim>\<open>undefined\<close>.
\<close>

fun get_message :: "json \<Rightarrow> js_error + json option" where
  "get_message JNull = Inl TypeError"
| "get_message (JObject members) = Inr (map_of (rev members) (js ''message''))"
| "get_message (JBool b) = Inr None"
| "get_message (JNumber n) = Inr None"
| "get_message (JString s) = Inr None"
| "get_message (JArray xs) = Inr None"

subsection \<open>Requests and responses\<close>

text \<open>
  A request header is a string, or an array of strings. A chunk of the request body is a
  \<^verbatim>\<open>Buffer\<close>: \<^verbatim>\<open>chunk.length\<close> is its number of bytes and \<^verbatim>\<open>body += chunk\<close>
  appends its text.
\<close>

datatype header_value = HString jsstring | HArray "jsstring list"

record body_chunk =
  chunk_length :: nat
  chunk_text :: jsstring

record request =
  req_method :: jsstring
  url :: jsstring
  headers :: "jsstring \<rightharpoonup> header_value"
  remoteAddress :: "jsstring option"
  body_chunks :: "body_chunk list"

text \<open>
  A response: the status, the headers (set by \<^verbatim>\<open>setHeader\<close> and merged with those of
  \<^verbatim>\<open>writeHead\<close>, which win) and the body. A JSON body is kept as the record that
  \<^verbatim>\<open>JSON.stringify\<close> prints.
\<close>

datatype jsvalue = VString jsstring | VNumber int | VBool bool

datatype body = NoBody | JsonBody "(jsstring \<times> jsvalue) list" | TextBody jsstring

record response =
  statusCode :: nat
  res_headers :: "jsstring \<rightharpoonup> jsvalue"
  res_body :: body

definition fresh_response :: response where
  "fresh_response = \<lparr>statusCode = 200, res_headers = Map.empty, res_body = NoBody\<rparr>"

definition setHeader :: "jsstring \<Rightarrow> jsvalue \<Rightarrow> response \<Rightarrow> response" where
  "setHeader name v res = res\<lparr>res_headers := (res_headers res)(name \<mapsto> v)\<rparr>"

definition writeHead :: "nat \<Rightarrow> (jsstring \<times> jsvalue) list \<Rightarrow> response \<Rightarrow> response" where
  "writeHead status hs res =
     res\<lparr>statusCode := status, res_headers := res_headers res ++ map_of (rev hs)\<rparr>"

definition res_end :: "body \<Rightarrow> response \<Rightarrow> response" where
  "res_end b res = res\<lparr>res_body := b\<rparr>"

definition corsHeaders :: "(jsstring \<times> jsvalue) list" where
  "corsHeaders =
     [(js ''Access-Control-Allow-Origin'', VString (js ''*'')),
      (js ''Access-Control-Allow-Methods'', VString (js ''GET, POST, OPTIONS'')),
      (js ''Access-Control-Allow-Headers'', VString (js ''Content-Type''))]"

definition sendJson :: "response \<Rightarrow> nat \<Rightarrow> (jsstring \<times> jsvalue) list \<Rightarrow> response" where
  "sendJson res status b =
     res_end (JsonBody b)
       (writeHead status (corsHeaders @ [(js ''Content-Type'', VString (js ''application/json''))]) res)"

text \<open>
  \<^verbatim>\<open>getClientIP(req)\<close>. \<^verbatim>\<open>forwarded.split(",")[0]\<close> is \<^verbatim>\<open>undefined\<close> on an
  empty array, and \<^verbatim>\<open>.trim()\<close> of it a \<^verbatim>\<open>TypeError\<close>.
  \<^verbatim>\<open>req.socket.remoteAddress || "unknown"\<close> replaces \<^verbatim>\<open>undefined\<close> and the empty
  string.
\<close>

definition getClientIP :: "request \<Rightarrow> js_error + jsstring" where
  "getClientIP req =
     (case headers req (js ''x-forwarded-for'') of
        Some (HString forwarded) \<Rightarrow>
          (case split 44 forwarded of
             [] \<Rightarrow> Inl TypeError
           | first # _ \<Rightarrow> Inr (trim first))
      | _ \<Rightarrow>
          (case headers req (js ''x-real-ip'') of
             Some (HString realIp) \<Rightarrow> Inr (trim realIp)
           | _ \<Rightarrow>
               (case remoteAddress req of
                  None \<Rightarrow> Inr (js ''unknown'')
                | Some a \<Rightarrow> if a = [] then Inr (js ''unknown'') else Inr a)))"

subsection \<open>The chat handler\<close>

text \<open>
  What the handler calls and this file does not define: \<^verbatim>\<open>retriever.retrieve\<close>
  (\<open>None\<close> when its promise rejects), the upstream completion (the tokens that
  \<^verbatim>\<open>streamOpenAI\<close> hands to \<^verbatim>\<open>onToken\<close>, and whether it returned rather than threw)
  and \<^verbatim>\<open>store.count()\<close>. Of a search result the handler reads the title, the URL
  and the content of its chunk.
\<close>

record DocsChunk =
  doc_id :: jsstring
  doc_path :: jsstring
  doc_title :: jsstring
  doc_content :: jsstring
  doc_url :: jsstring

record SearchResult =
  chunk :: DocsChunk

record services =
  retrieve :: "jsstring \<Rightarrow> nat \<Rightarrow> SearchResult list option"
  streamOpenAI :: "jsstring \<Rightarrow> jsstring \<Rightarrow> jsstring list \<times> bool"
  store_count :: nat

text \<open>
  The loop that reads the body: \<open>TooLarge n\<close> when the \<open>n\<close>-th chunk takes the size over
  \<open>MAX_BODY_SIZE\<close> (the loop returns there and reads no further chunk), \<open>Complete body n\<close>
  when all \<open>n\<close> chunks were read.
\<close>

datatype read_result = TooLarge nat | Complete jsstring nat

fun read_body :: "body_chunk list \<Rightarrow> jsstring \<Rightarrow> nat \<Rightarrow> nat \<Rightarrow> read_result" where
  "read_body [] body bodySize n = Complete body n"
| "read_body (c # rest) body bodySize n =
     (if bodySize + chunk_length c > MAX_BODY_SIZE then TooLarge (Suc n)
      else read_body rest (body @ chunk_text c) (bodySize + chunk_length c) (Suc n))"

text \<open>
  Lines 162 to 187: the message of a body text, or the error text of the 400 response.
  \<^verbatim>\<open>!message\<close> holds of \<^verbatim>\<open>undefined\<close> and of the empty string; every value that
  is not a string fails \<^verbatim>\<open>typeof message !== "string"\<close>.
\<close>

definition read_message :: "jsstring \<Rightarrow> jsstring + jsstring" where
  "read_message text =
     (case JSON_parse text of
        None \<Rightarrow> Inl (js ''Invalid JSON'')
      | Some v \<Rightarrow>
          (case get_message v of
             Inl e \<Rightarrow> Inl (js ''Invalid JSON'')
           | Inr None \<Rightarrow> Inl (js ''message required'')
           | Inr (Some (JString message)) \<Rightarrow>
               if message = [] then Inl (js ''message required'')
               else
                 (let trimmedMessage = trim message in
                  if trimmedMessage = [] then Inl (js ''message required'')
                  else if length trimmedMessage > MAX_MESSAGE_LENGTH then
                    Inl (js ''Message too long (max 2000 characters)'')
                  else Inr trimmedMessage)
           | Inr (Some _) \<Rightarrow> Inl (js ''message required'')))"

definition apology :: jsstring where
  "apology = js ''I couldn't find relevant documentation excerpts for that question. Try rephrasing or search the docs.''"

definition excerpt :: "SearchResult \<Rightarrow> jsstring" where
  "excerpt r =
     js ''['' @ doc_title (chunk r) @ js ''](''  @ doc_url (chunk r) @ js '')'' @ [10] @
     take 1200 (doc_content (chunk r))"

definition systemPrompt :: "SearchResult list \<Rightarrow> jsstring" where
  "systemPrompt results =
     js ''You are a helpful assistant for OpenClaw documentation. '' @
     js ''Answer only from the provided documentation excerpts. '' @
     js ''If the answer is not in the excerpts, say so and suggest checking the docs. '' @
     js ''Cite sources by name or URL when relevant.'' @ [10, 10] @
     js ''Documentation excerpts:'' @ [10] @
     join ([10, 10] @ js ''---'' @ [10, 10]) (map excerpt results)"

text \<open>Lines 189 to 233: the answer to a valid message.\<close>

definition answer :: "services \<Rightarrow> jsstring \<Rightarrow> response \<Rightarrow> response option" where
  "answer sv message res =
     (case retrieve sv message 8 of
        None \<Rightarrow> None
      | Some results \<Rightarrow>
          if length results = 0 then
            Some (res_end (TextBody apology)
              (writeHead 200
                 (corsHeaders @ [(js ''Content-Type'', VString (js ''text/plain; charset=utf-8''))])
                 res))
          else
            (case streamOpenAI sv (systemPrompt results) message of
               (tokens, ok) \<Rightarrow>
                 Some (res_end
                   (TextBody (concat tokens @
                      (if ok then [] else [10, 10] @ js ''[Error contacting OpenAI]'')))
                   (writeHead 200
                      (corsHeaders @
                       [(js ''Content-Type'', VString (js ''text/plain; charset=utf-8'')),
                        (js ''Transfer-Encoding'', VString (js ''chunked''))])
                      res))))"

text \<open>
  What a run of a handler leaves behind: the response (\<open>None\<close> when the handler's promise
  rejects and nothing is sent), the number of body chunks it took from the request, and
  the text it handed to \<^verbatim>\<open>JSON.parse\<close>, if it called it.
\<close>

record outcome =
  result :: "response option"
  chunks_read :: nat
  parse_input :: "jsstring option"

definition handleChat :: "services \<Rightarrow> body_chunk list \<Rightarrow> response \<Rightarrow> outcome" where
  "handleChat sv chunks res =
     (case read_body chunks [] 0 0 of
        TooLarge n \<Rightarrow>
          \<lparr>result = Some (sendJson res 413 [(js ''error'', VString (js ''Request too large''))]),
           chunks_read = n, parse_input = None\<rparr>
      | Complete body n \<Rightarrow>
          (let text = (if body = [] then js ''{}'' else body) in
           \<lparr>result =
              (case read_message text of
                 Inl err \<Rightarrow> Some (sendJson res 400 [(js ''error'', VString err)])
               | Inr message \<Rightarrow> answer sv message res),
            chunks_read = n, parse_input = Some text\<rparr>))"

subsection \<open>The request handler of the server\<close>

definition responded :: "response \<Rightarrow> outcome" where
  "responded r = \<lparr>result = Some r, chunks_read = 0, parse_input = None\<rparr>"

definition rejected :: outcome where
  "rejected = \<lparr>result = None, chunks_read = 0, parse_input = None\<rparr>"

text \<open>
  The handler of \<^verbatim>\<open>http.createServer\<close> on one request: \<open>now\<close> is the clock that
  \<^verbatim>\<open>checkRateLimit\<close> reads and \<open>now2\<close> the clock read again for \<^verbatim>\<open>retryAfter\<close>.
\<close>

definition rate_headers :: "config \<Rightarrow> rate_check \<Rightarrow> response \<Rightarrow> response" where
  "rate_headers cfg rateCheck res =
     setHeader (js ''X-RateLimit-Reset'') (VNumber (ceil_div_1000 (check_resetAt rateCheck)))
       (setHeader (js ''X-RateLimit-Remaining'') (VNumber (max 0 (remaining rateCheck)))
          (setHeader (js ''X-RateLimit-Limit'') (VNumber (RATE_LIMIT cfg)) res))"

definition too_many :: "rate_check \<Rightarrow> int \<Rightarrow> response \<Rightarrow> response" where
  "too_many rateCheck now2 res =
     (let retryAfter = ceil_div_1000 (check_resetAt rateCheck - now2) in
      sendJson (setHeader (js ''Retry-After'') (VNumber retryAfter) res) 429
        [(js ''error'', VString (js ''Too many requests. Please wait before trying again.'')),
         (js ''retryAfter'', VNumber retryAfter)])"

definition server ::
  "config \<Rightarrow> services \<Rightarrow> int \<Rightarrow> int \<Rightarrow> request \<Rightarrow> rate_store \<Rightarrow> outcome \<times> rate_store" where
  "server cfg sv now now2 req store =
     (if req_method req = js ''OPTIONS'' then
        (responded (res_end NoBody (writeHead 204 corsHeaders fresh_response)), store)
      else if req_method req = js ''GET'' \<and> (url req = js ''/'' \<or> url req = js ''/health'') then
        (responded (sendJson fresh_response 200
           [(js ''ok'', VBool True), (js ''chunks'', VNumber (int (store_count sv))),
            (js ''mode'', VString (js ''vector''))]), store)
      else if req_method req = js ''POST'' \<and> url req = js ''/chat'' then
        (case getClientIP req of
           Inl e \<Rightarrow> (rejected, store)
         | Inr clientIP \<Rightarrow>
             (case checkRateLimit cfg now store clientIP of
                (rateCheck, store') \<Rightarrow>
                  if \<not> allowed rateCheck then
                    (responded (too_many rateCheck now2 (rate_headers cfg rateCheck fresh_response)),
                     store')
                  else
                    (handleChat sv (body_chunks req) (rate_headers cfg rateCheck fresh_response),
                     store')))
      else (responded (sendJson fresh_response 404 [(js ''error'', VString (js ''Not found''))]), store))"

subsection \<open>Runs of the server\<close>

text \<open>
  The server handles one request after the other, and between requests the interval
  timer may run the clean-up. A run is a list of these events, each with the clock
  values it reads; the state that goes from one event to the next is the rate-limit
  store.
\<close>

datatype event = Request int int request | Sweep int

fun run :: "config \<Rightarrow> services \<Rightarrow> event list \<Rightarrow> rate_store \<Rightarrow> outcome list \<times> rate_store" where
  "run cfg sv [] store = ([], store)"
| "run cfg sv (Sweep now # evs) store = run cfg sv evs (sweep now store)"
| "run cfg sv (Request now now2 req # evs) store =
     (case server cfg sv now now2 req store of
        (out, store') \<Rightarrow>
          (case run cfg sv evs store' of
             (outs, store'') \<Rightarrow> (out # outs, store'')))"

subsection \<open>The store factory (\<open>rag/store-factory.ts\<close>) and the store of the server\<close>

text \<open>
  \<^verbatim>\<open>process.env\<close> maps a variable's name to its text; a variable that is not set reads
  as \<^verbatim>\<open>undefined\<close>, which is \<open>None\<close>. \<^verbatim>\<open>undefined\<close> and the empty string are the
  falsy values among these.
\<close>

type_synonym env = "jsstring \<rightharpoonup> jsstring"

definition truthy :: "jsstring option \<Rightarrow> bool" where
  "truthy v = (case v of None \<Rightarrow> False | Some s \<Rightarrow> s \<noteq> [])"

text \<open>\<^verbatim>\<open>a && b\<close> and \<^verbatim>\<open>a || b\<close>.\<close>

definition js_and :: "jsstring option \<Rightarrow> jsstring option \<Rightarrow> jsstring option" where
  "js_and a b = (if truthy a then b else a)"

definition js_or :: "jsstring option \<Rightarrow> jsstring option \<Rightarrow> jsstring option" where
  "js_or a b = (if truthy a then a else b)"

datatype StoreMode = upstash | lancedb

definition detectStoreMode :: "env \<Rightarrow> StoreMode" where
  "detectStoreMode env =
     (let hasUpstash =
        js_and (env (js ''UPSTASH_VECTOR_REST_URL'')) (env (js ''UPSTASH_VECTOR_REST_TOKEN''))
      in if truthy hasUpstash then upstash else lancedb)"

text \<open>
  Paths. A module's \<^verbatim>\<open>__dirname\<close> is an absolute path. \<open>normalize\<close> resolves the
  segments \<^verbatim>\<open>.\<close> and \<^verbatim>\<open>..\<close> of an absolute POSIX path; \<^verbatim>\<open>path.join(dir, name)\<close>
  and \<^verbatim>\<open>path.resolve(dir, name)\<close>, for an absolute \<open>dir\<close> and a relative \<open>name\<close>, both
  normalize \<open>dir/name\<close>.
\<close>

fun walk :: "jsstring list \<Rightarrow> jsstring list \<Rightarrow> jsstring list" where
  "walk acc [] = acc"
| "walk acc (seg # segs) =
     (if seg = [] \<or> seg = js ''.'' then walk acc segs
      else if seg = js ''..'' then walk (butlast acc) segs
      else walk (acc @ [seg]) segs)"

definition normalize :: "jsstring \<Rightarrow> jsstring" where
  "normalize p =
     (let segs = walk [] (split 47 p)
      in if segs = [] then js ''/'' else concat (map (\<lambda>seg. 47 # seg) segs))"

definition path_join :: "jsstring \<Rightarrow> jsstring \<Rightarrow> jsstring" where
  "path_join dir name = normalize (dir @ [47] @ name)"

definition path_resolve :: "jsstring \<Rightarrow> jsstring \<Rightarrow> jsstring" where
  "path_resolve dir name = normalize (dir @ [47] @ name)"

text \<open>
  The two store classes: \<^verbatim>\<open>new DocsStore()\<close> of \<^verbatim>\<open>store-upstash.js\<close> and
  \<^verbatim>\<open>new DocsStore(dbPath, dimensions)\<close> of \<^verbatim>\<open>store.js\<close>.
\<close>

datatype docs_store = UpstashDocsStore | LanceDocsStore jsstring int

definition VECTOR_DIM :: int where
  "VECTOR_DIM = 3072"

text \<open>
  \<open>dir\<close> is the directory \<^verbatim>\<open>scripts/docs-chat\<close> of the installation; the factory
  lives in its subdirectory \<^verbatim>\<open>rag\<close>.
\<close>

definition DEFAULT_LANCEDB_PATH :: "jsstring \<Rightarrow> jsstring" where
  "DEFAULT_LANCEDB_PATH dir = path_resolve (dir @ js ''/rag'') (js ''../.lancedb'')"

text \<open>\<^verbatim>\<open>createStore(mode?, lancedbPath?)\<close>; \<^verbatim>\<open>??\<close> replaces \<^verbatim>\<open>undefined\<close> only.\<close>

definition createStore ::
  "jsstring \<Rightarrow> env \<Rightarrow> StoreMode option \<Rightarrow> jsstring option \<Rightarrow> docs_store \<times> StoreMode" where
  "createStore dir env mode lancedbPath =
     (let selectedMode = (case mode of None \<Rightarrow> detectStoreMode env | Some m \<Rightarrow> m) in
      if selectedMode = upstash then (UpstashDocsStore, upstash)
      else
        (let dbPath = (case lancedbPath of None \<Rightarrow> DEFAULT_LANCEDB_PATH dir | Some p \<Rightarrow> p)
         in (LanceDocsStore dbPath VECTOR_DIM, lancedb)))"

text \<open>
  The store of \<^verbatim>\<open>serve.ts\<close> (lines 13 to 15 and 83). \<open>dimensions\<close> is
  \<^verbatim>\<open>embeddings.dimensions\<close>, a constant of the class \<^verbatim>\<open>Embeddings\<close>.
\<close>

definition defaultDbPath :: "jsstring \<Rightarrow> jsstring" where
  "defaultDbPath dir = path_join dir (js ''.lance-db'')"

definition dbPath :: "jsstring \<Rightarrow> env \<Rightarrow> jsstring" where
  "dbPath dir env =
     (case js_or (env (js ''DOCS_CHAT_DB'')) (Some (defaultDbPath dir)) of
        None \<Rightarrow> defaultDbPath dir
      | Some p \<Rightarrow> p)"

definition serve_store :: "jsstring \<Rightarrow> env \<Rightarrow> int \<Rightarrow> docs_store" where
  "serve_store dir env dimensions = LanceDocsStore (dbPath dir env) dimensions"

section \<open>The notions of the specification\<close>

text \<open>
  The size of a request body in bytes and its text, and the string that a body text
  carries in its field \<^verbatim>\<open>message\<close>: the body parses as a JSON object, the object has
  a member \<^verbatim>\<open>message\<close>, and that member is a string.
\<close>

definition body_size :: "body_chunk list \<Rightarrow> nat" where
  "body_size chunks = sum_list (map chunk_length chunks)"

definition body_text :: "body_chunk list \<Rightarrow> jsstring" where
  "body_text chunks = concat (map chunk_text chunks)"

definition spec_message :: "jsstring \<Rightarrow> jsstring option" where
  "spec_message body =
     (case JSON_parse body of
        Some (JObject members) \<Rightarrow>
          (case map_of (rev members) (js ''message'') of
             Some (JString m) \<Rightarrow> Some m
           | _ \<Rightarrow> None)
      | _ \<Rightarrow> None)"

text \<open>
  A chat request is a \<^verbatim>\<open>POST\<close> to \<^verbatim>\<open>/chat\<close>; \<open>chat_from ip\<close> holds of the events
  that are chat requests whose client IP is \<open>ip\<close>. \<open>store_after\<close> is the store that a
  run leaves behind, and \<open>count_after N c k\<close> the count of a record that stood at \<open>c\<close>
  after \<open>k\<close> more requests in its window, under the limit \<open>N\<close>.
\<close>

definition is_chat :: "request \<Rightarrow> bool" where
  "is_chat req = (req_method req = js ''POST'' \<and> url req = js ''/chat'')"

fun chat_from :: "jsstring \<Rightarrow> event \<Rightarrow> bool" where
  "chat_from ip (Request now now2 req) = (is_chat req \<and> getClientIP req = Inr ip)"
| "chat_from ip (Sweep now) = False"

fun event_time :: "event \<Rightarrow> int" where
  "event_time (Request now now2 req) = now"
| "event_time (Sweep now) = now"

definition store_after :: "config \<Rightarrow> services \<Rightarrow> event list \<Rightarrow> rate_store \<Rightarrow> rate_store" where
  "store_after cfg sv evs store = snd (run cfg sv evs store)"

definition count_after :: "int \<Rightarrow> int \<Rightarrow> nat \<Rightarrow> int" where
  "count_after N c k = (if N \<le> c then c else min N (c + int k))"

section \<open>Concrete inputs\<close>

text \<open>
  The configurations, environments and requests at which the properties below are
  evaluated.
\<close>

definition cfg_limit0 :: config where
  "cfg_limit0 = \<lparr>RATE_LIMIT = 0, RATE_WINDOW_MS = 60000\<rparr>"

definition ip_a :: jsstring where
  "ip_a = js ''203.0.113.7''"

text \<open>An environment in which the URL variable is set to the empty string.\<close>

definition env_empty_url :: env where
  "env_empty_url =
     [js ''UPSTASH_VECTOR_REST_URL'' \<mapsto> [], js ''UPSTASH_VECTOR_REST_TOKEN'' \<mapsto> js ''token'']"

definition sv_none :: services where
  "sv_none = \<lparr>retrieve = (\<lambda>q n. Some []), streamOpenAI = (\<lambda>p m. ([], True)), store_count = 0\<rparr>"

text \<open>A body of sixteen bytes with a short message, in one chunk.\<close>

definition chunks_hi :: "body_chunk list" where
  "chunks_hi = [\<lparr>chunk_length = 16, chunk_text = js ''{\"message\":\"hi\"}''\<rparr>]"

text \<open>
  A well-formed body whose message is \<open>n\<close> letters \<^verbatim>\<open>a\<close>, in one chunk of
  \<open>n + 14\<close> bytes.
\<close>

definition chunks_letters :: "nat \<Rightarrow> body_chunk list" where
  "chunks_letters n =
     [\<lparr>chunk_length = n + 14,
       chunk_text = js ''{\"message\":\"'' @ replicate n 97 @ js ''\"}''\<rparr>]"

text \<open>Three chunks of 5000, 5000 and 10 bytes.\<close>

definition chunks_three :: "body_chunk list" where
  "chunks_three =
     [\<lparr>chunk_length = 5000, chunk_text = replicate 5000 120\<rparr>,
      \<lparr>chunk_length = 5000, chunk_text = replicate 5000 120\<rparr>,
      \<lparr>chunk_length = 10, chunk_text = replicate 10 120\<rparr>]"

text \<open>
  A limit of two requests per minute, a chat request of the client 203.0.113.7 behind a
  proxy, a store in which that client has used up the limit, and the 429 response that the
  server then gives at the clock 3005.
\<close>

definition cfg_limit2 :: config where
  "cfg_limit2 = \<lparr>RATE_LIMIT = 2, RATE_WINDOW_MS = 60000\<rparr>"

definition req_a :: request where
  "req_a =
     \<lparr>req_method = js ''POST'', url = js ''/chat'',
      headers = [js ''x-forwarded-for'' \<mapsto> HString (js ''203.0.113.7, 10.0.0.1'')],
      remoteAddress = Some (js ''10.0.0.1''), body_chunks = chunks_hi\<rparr>"

definition store_full :: rate_store where
  "store_full = [ip_a \<mapsto> \<lparr>count = 2, resetAt = 61000\<rparr>]"

definition resp_429 :: response where
  "resp_429 =
     too_many \<lparr>allowed = False, remaining = 0, check_resetAt = 61000\<rparr> 3005
       (rate_headers cfg_limit2 \<lparr>allowed = False, remaining = 0, check_resetAt = 61000\<rparr>
          fresh_response)"

text \<open>An installation directory, and an environment that sets neither store variable.\<close>

definition docs_chat_dir :: jsstring where
  "docs_chat_dir = js ''/srv/openclaw/scripts/docs-chat''"

definition env_local :: env where
  "env_local = [js ''OPENAI_API_KEY'' \<mapsto> js ''sk-test'']"

section \<open>Properties\<close>

subsection \<open>Literals and rounding\<close>

lemma js_eq_iff [simp]: "js a = js b \<longleftrightarrow> a = b"
  by (simp add: js_def inj_map_eq_map [OF inj_of_char])

lemma js_Nil_iff [simp]: "js a = [] \<longleftrightarrow> a = []" "[] = js a \<longleftrightarrow> a = []"
  by (auto simp: js_def)

lemma length_js [simp]: "length (js a) = length a"
  by (simp add: js_def)

text \<open>\<open>ceil_div_1000 x\<close> is the least number of thousands that covers \<open>x\<close>.\<close>

lemma ceil_div_1000_bounds: "1000 * (ceil_div_1000 x - 1) < x \<and> x \<le> 1000 * ceil_div_1000 x"
proof -
  define q where "q = (- x) div 1000"
  define m where "m = (- x) mod 1000"
  have "q * 1000 + m = - x"
    unfolding q_def m_def by (rule div_mult_mod_eq)
  moreover have "0 \<le> m" "m < 1000"
    unfolding m_def by simp_all
  moreover have "ceil_div_1000 x = - q"
    unfolding ceil_div_1000_def q_def by simp
  ultimately show ?thesis by simp
qed

subsection \<open>The rate limiter\<close>

text \<open>
  Claim C9. For an IP whose record is absent, or expired (the clock is strictly past its
  \<open>resetAt\<close>), \<open>checkRateLimit\<close> returns allowed, with remaining \<open>RATE_LIMIT - 1\<close>, and
  stores a fresh record of count 1 that resets one window after the clock, whatever the
  configured limit is. With a limit of 0 the remaining count it returns is negative.
\<close>

theorem checkRateLimit_fresh_window:
  assumes "store ip = None \<or> (\<exists>r. store ip = Some r \<and> now > resetAt r)"
  shows "checkRateLimit cfg now store ip =
           (\<lparr>allowed = True, remaining = RATE_LIMIT cfg - 1,
             check_resetAt = now + RATE_WINDOW_MS cfg\<rparr>,
            store(ip \<mapsto> \<lparr>count = 1, resetAt = now + RATE_WINDOW_MS cfg\<rparr>))
         \<and> (RATE_LIMIT cfg = 0 \<longrightarrow> remaining (fst (checkRateLimit cfg now store ip)) < 0)"
  using assms by (auto simp: checkRateLimit_def new_window_def)

theorem checkRateLimit_fresh_window_witness:
  "Map.empty ip_a = (None :: rate_record option) \<and>
   checkRateLimit cfg_limit0 1000 Map.empty ip_a =
     (\<lparr>allowed = True, remaining = - 1, check_resetAt = 61000\<rparr>,
      [ip_a \<mapsto> \<lparr>count = 1, resetAt = 61000\<rparr>]) \<and>
   RATE_LIMIT cfg_limit0 = 0 \<and>
   remaining (fst (checkRateLimit cfg_limit0 1000 Map.empty ip_a)) < 0"
  using checkRateLimit_fresh_window [of Map.empty ip_a 1000 cfg_limit0]
  by (simp add: cfg_limit0_def)

subsection \<open>The store factory\<close>

text \<open>
  Claim C4, as the code has it. \<open>detectStoreMode\<close> returns the cloud mode exactly when
  both variables are set to a non-empty text, and the local mode otherwise: a variable
  that is not set and a variable set to the empty string count the same.
\<close>

theorem detectStoreMode_iff:
  "detectStoreMode env =
     (if (\<exists>u. env (js ''UPSTASH_VECTOR_REST_URL'') = Some u \<and> u \<noteq> []) \<and>
         (\<exists>t. env (js ''UPSTASH_VECTOR_REST_TOKEN'') = Some t \<and> t \<noteq> [])
      then upstash else lancedb)"
  by (auto simp: detectStoreMode_def js_and_def truthy_def split: option.splits)

text \<open>
  Claim C4 as stated fails: with both variables present and the URL empty, the mode is
  the local one.
\<close>

theorem detectStoreMode_present_but_empty:
  "env_empty_url (js ''UPSTASH_VECTOR_REST_URL'') \<noteq> None \<and>
   env_empty_url (js ''UPSTASH_VECTOR_REST_TOKEN'') \<noteq> None \<and>
   detectStoreMode env_empty_url = lancedb"
  by (simp add: env_empty_url_def detectStoreMode_def js_and_def truthy_def)

subsection \<open>The client address\<close>

lemma split_first: "\<exists>fs. split sep s = takeWhile (\<lambda>c. c \<noteq> sep) s # fs"
  by (induction s) auto

text \<open>
  Claim C8. The client IP is the text of the \<^verbatim>\<open>X-Forwarded-For\<close> header up to its
  first comma, trimmed, when that header is a string; otherwise the \<^verbatim>\<open>X-Real-IP\<close>
  header, trimmed, when it is a string; otherwise the remote address of the socket,
  when there is one (and it is not empty); otherwise the text \<^verbatim>\<open>unknown\<close>. The
  function never fails.
\<close>

theorem getClientIP_order:
  "getClientIP req =
     Inr (case headers req (js ''x-forwarded-for'') of
            Some (HString forwarded) \<Rightarrow> trim (takeWhile (\<lambda>c. c \<noteq> 44) forwarded)
          | _ \<Rightarrow>
              (case headers req (js ''x-real-ip'') of
                 Some (HString realIp) \<Rightarrow> trim realIp
               | _ \<Rightarrow>
                   (case remoteAddress req of
                      Some a \<Rightarrow> if a \<noteq> [] then a else js ''unknown''
                    | None \<Rightarrow> js ''unknown'')))"
proof -
  have first: "(case split 44 f of [] \<Rightarrow> Inl TypeError | first # _ \<Rightarrow> Inr (trim first)) =
      Inr (trim (takeWhile (\<lambda>c. c \<noteq> 44) f))" for f
    using split_first [of 44 f] by auto
  show ?thesis
    unfolding getClientIP_def
    by (simp add: first split: option.splits header_value.splits)
qed

subsection \<open>Reading the body\<close>

lemma read_body_complete:
  "bodySize + sum_list (map chunk_length chunks) \<le> MAX_BODY_SIZE \<Longrightarrow>
   read_body chunks body bodySize n =
     Complete (body @ concat (map chunk_text chunks)) (n + length chunks)"
  by (induction chunks arbitrary: body bodySize n) auto

lemma read_body_too_large:
  "bodySize \<le> MAX_BODY_SIZE \<Longrightarrow>
   bodySize + sum_list (map chunk_length chunks) > MAX_BODY_SIZE \<Longrightarrow>
   \<exists>k < length chunks.
      bodySize + sum_list (map chunk_length (take k chunks)) \<le> MAX_BODY_SIZE \<and>
      bodySize + sum_list (map chunk_length (take (Suc k) chunks)) > MAX_BODY_SIZE \<and>
      read_body chunks body bodySize n = TooLarge (n + Suc k)"
proof (induction chunks arbitrary: body bodySize n)
  case Nil
  then show ?case by simp
next
  case (Cons c rest)
  show ?case
  proof (cases "bodySize + chunk_length c > MAX_BODY_SIZE")
    case True
    have "0 < length (c # rest)" by simp
    moreover have "bodySize + sum_list (map chunk_length (take 0 (c # rest))) \<le> MAX_BODY_SIZE"
      using Cons.prems(1) by simp
    moreover have "bodySize + sum_list (map chunk_length (take (Suc 0) (c # rest))) > MAX_BODY_SIZE"
      using True by simp
    moreover have "read_body (c # rest) body bodySize n = TooLarge (n + Suc 0)"
      using True by simp
    ultimately show ?thesis by blast
  next
    case False
    then have le: "bodySize + chunk_length c \<le> MAX_BODY_SIZE" by simp
    from Cons.prems have gt: "bodySize + chunk_length c + sum_list (map chunk_length rest) > MAX_BODY_SIZE"
      by simp
    from Cons.IH [OF le gt, of "body @ chunk_text c" "Suc n"]
    obtain k where k: "k < length rest"
      and k1: "bodySize + chunk_length c + sum_list (map chunk_length (take k rest)) \<le> MAX_BODY_SIZE"
      and k2: "bodySize + chunk_length c + sum_list (map chunk_length (take (Suc k) rest)) > MAX_BODY_SIZE"
      and k3: "read_body rest (body @ chunk_text c) (bodySize + chunk_length c) (Suc n) = TooLarge (Suc n + Suc k)"
      by blast
    have "Suc k < length (c # rest)" using k by simp
    moreover have "bodySize + sum_list (map chunk_length (take (Suc k) (c # rest))) \<le> MAX_BODY_SIZE"
      using k1 by simp
    moreover have "bodySize + sum_list (map chunk_length (take (Suc (Suc k)) (c # rest))) > MAX_BODY_SIZE"
      using k2 by simp
    moreover have "read_body (c # rest) body bodySize n = TooLarge (n + Suc (Suc k))"
      using False k3 by simp
    ultimately show ?thesis by blast
  qed
qed

lemma statusCode_sendJson [simp]: "statusCode (sendJson res status b) = status"
  by (simp add: sendJson_def res_end_def writeHead_def)

lemma res_body_sendJson [simp]: "res_body (sendJson res status b) = JsonBody b"
  by (simp add: sendJson_def res_end_def writeHead_def)

text \<open>The handler on a body within the size limit.\<close>

lemma handleChat_complete:
  assumes "body_size chunks \<le> MAX_BODY_SIZE"
  shows "handleChat sv chunks res =
    \<lparr>result =
       (case read_message (if body_text chunks = [] then js ''{}'' else body_text chunks) of
          Inl err \<Rightarrow> Some (sendJson res 400 [(js ''error'', VString err)])
        | Inr message \<Rightarrow> answer sv message res),
     chunks_read = length chunks,
     parse_input = Some (if body_text chunks = [] then js ''{}'' else body_text chunks)\<rparr>"
proof -
  from assms have "0 + sum_list (map chunk_length chunks) \<le> MAX_BODY_SIZE"
    by (simp add: body_size_def)
  from read_body_complete [OF this, of "[]" 0]
  have "read_body chunks [] 0 0 = Complete (body_text chunks) (length chunks)"
    by (simp add: body_text_def)
  then show ?thesis
    by (simp add: handleChat_def Let_def)
qed

text \<open>The handler on a body over the size limit.\<close>

lemma handleChat_too_large:
  assumes "body_size chunks > MAX_BODY_SIZE"
  shows "\<exists>k < length chunks.
           body_size (take k chunks) \<le> MAX_BODY_SIZE \<and>
           body_size (take (Suc k) chunks) > MAX_BODY_SIZE \<and>
           handleChat sv chunks res =
             \<lparr>result = Some (sendJson res 413 [(js ''error'', VString (js ''Request too large''))]),
              chunks_read = Suc k, parse_input = None\<rparr>"
proof -
  from assms have gt: "0 + sum_list (map chunk_length chunks) > MAX_BODY_SIZE"
    by (simp add: body_size_def)
  from read_body_too_large [OF _ gt, of "[]" 0]
  obtain k where k: "k < length chunks"
    and k1: "0 + sum_list (map chunk_length (take k chunks)) \<le> MAX_BODY_SIZE"
    and k2: "0 + sum_list (map chunk_length (take (Suc k) chunks)) > MAX_BODY_SIZE"
    and k3: "read_body chunks [] 0 0 = TooLarge (0 + Suc k)"
    by blast
  have "handleChat sv chunks res =
      \<lparr>result = Some (sendJson res 413 [(js ''error'', VString (js ''Request too large''))]),
       chunks_read = Suc k, parse_input = None\<rparr>"
    using k3 by (simp add: handleChat_def)
  moreover have "body_size (take k chunks) \<le> MAX_BODY_SIZE"
    using k1 by (simp add: body_size_def)
  moreover have "body_size (take (Suc k) chunks) > MAX_BODY_SIZE"
    using k2 by (simp add: body_size_def)
  ultimately show ?thesis using k by blast
qed

text \<open>
  Claim C3. When the body is larger than 8192 bytes, the handler answers 413; it has
  read the chunks up to and including the first one that takes the size over the limit
  and no chunk after it, and it has not called \<^verbatim>\<open>JSON.parse\<close>. Whenever the handler
  calls \<^verbatim>\<open>JSON.parse\<close>, the body has at most 8192 bytes.
\<close>

theorem handleChat_413_before_parse:
  "(body_size chunks > 8192 \<longrightarrow>
      (\<exists>k < length chunks.
         body_size (take k chunks) \<le> 8192 \<and> body_size (take (Suc k) chunks) > 8192 \<and>
         handleChat sv chunks res =
           \<lparr>result = Some (sendJson res 413 [(js ''error'', VString (js ''Request too large''))]),
            chunks_read = Suc k, parse_input = None\<rparr>)) \<and>
   (parse_input (handleChat sv chunks res) \<noteq> None \<longrightarrow> body_size chunks \<le> 8192)"
proof (cases "body_size chunks > MAX_BODY_SIZE")
  case True
  from handleChat_too_large [OF True, of sv res] True show ?thesis
    unfolding MAX_BODY_SIZE_def by force
next
  case False
  then show ?thesis by (simp add: MAX_BODY_SIZE_def)
qed

theorem handleChat_413_before_parse_witness:
  "body_size chunks_three > 8192 \<and>
   handleChat sv_none chunks_three fresh_response =
     \<lparr>result = Some (sendJson fresh_response 413 [(js ''error'', VString (js ''Request too large''))]),
      chunks_read = 2, parse_input = None\<rparr> \<and>
   statusCode (sendJson fresh_response 413 [(js ''error'', VString (js ''Request too large''))]) = 413 \<and>
   parse_input (handleChat sv_none chunks_hi fresh_response) \<noteq> None \<and>
   body_size chunks_hi \<le> 8192"
proof -
  have big: "body_size chunks_three > 8192"
    by (simp add: body_size_def chunks_three_def)
  have "handleChat sv_none chunks_three fresh_response =
     \<lparr>result = Some (sendJson fresh_response 413 [(js ''error'', VString (js ''Request too large''))]),
      chunks_read = 2, parse_input = None\<rparr>"
    by (simp add: handleChat_def chunks_three_def MAX_BODY_SIZE_def)
  moreover have reached: "parse_input (handleChat sv_none chunks_hi fresh_response) \<noteq> None"
    by (simp add: handleChat_def chunks_hi_def MAX_BODY_SIZE_def Let_def)
  moreover from handleChat_413_before_parse [of chunks_hi sv_none fresh_response] reached
  have "body_size chunks_hi \<le> 8192" by blast
  ultimately show ?thesis using big by simp
qed

subsection \<open>Validation of the message\<close>

lemma trim_Nil [simp]: "trim [] = []"
  by (simp add: trim_def)

lemma lex_braces: "lex (js ''{}'') = Some [TLBrace, TRBrace]"
  by (simp add: js_def is_json_ws_def cons_token_def)

lemma JSON_parse_braces: "JSON_parse (js ''{}'') = Some (JObject [])"
  by (simp add: JSON_parse_def lex_braces)

lemma JSON_parse_Nil: "JSON_parse [] = None"
  by (simp add: JSON_parse_def)

lemma read_message_braces: "read_message (js ''{}'') = Inl (js ''message required'')"
  by (simp add: read_message_def JSON_parse_braces)

lemma get_message_string:
  "get_message v = Inr (Some (JString m)) \<longleftrightarrow>
   (\<exists>members. v = JObject members \<and> map_of (rev members) (js ''message'') = Some (JString m))"
  by (cases v) auto

lemma spec_message_Some:
  "spec_message b = Some m \<longleftrightarrow>
   (\<exists>v. JSON_parse b = Some v \<and> get_message v = Inr (Some (JString m)))"
proof (cases "JSON_parse b")
  case None
  then show ?thesis by (simp add: spec_message_def)
next
  case (Some v)
  show ?thesis
  proof (cases v)
    case (JObject members)
    with Some show ?thesis
      by (simp add: spec_message_def split: option.splits json.splits)
  qed (use Some in \<open>simp_all add: spec_message_def\<close>)
qed

lemma spec_message_braces: "spec_message (js ''{}'') = None"
  by (simp add: spec_message_def JSON_parse_braces)

lemma spec_message_Nil: "spec_message [] = None"
  by (simp add: spec_message_def JSON_parse_Nil)

lemma read_message_string:
  assumes "JSON_parse b = Some v" and "get_message v = Inr (Some (JString m))"
  shows "read_message b =
     (if trim m = [] then Inl (js ''message required'')
      else if length (trim m) > MAX_MESSAGE_LENGTH then Inl (js ''Message too long (max 2000 characters)'')
      else Inr (trim m))"
  using assms by (auto simp: read_message_def Let_def)

lemma read_message_no_string:
  assumes "spec_message b = None"
  shows "\<exists>e. read_message b = Inl e"
proof (cases "JSON_parse b")
  case None
  then show ?thesis by (simp add: read_message_def)
next
  case (Some v)
  show ?thesis
  proof (cases "get_message v")
    case (Inl e)
    with Some show ?thesis by (simp add: read_message_def)
  next
    case (Inr mo)
    show ?thesis
    proof (cases mo)
      case None
      with Some Inr show ?thesis by (simp add: read_message_def)
    next
      case (Some j)
      from assms \<open>JSON_parse b = Some v\<close> Inr Some have "\<forall>m. j \<noteq> JString m"
        using spec_message_Some [of b] by auto
      with \<open>JSON_parse b = Some v\<close> Inr Some show ?thesis
        by (cases j) (simp_all add: read_message_def)
    qed
  qed
qed

lemma read_message_of_string:
  assumes "spec_message b = Some m"
  shows "read_message b =
     (if trim m = [] then Inl (js ''message required'')
      else if length (trim m) > MAX_MESSAGE_LENGTH then Inl (js ''Message too long (max 2000 characters)'')
      else Inr (trim m))"
proof -
  from assms obtain v where "JSON_parse b = Some v" "get_message v = Inr (Some (JString m))"
    unfolding spec_message_Some by blast
  from read_message_string [OF this] show ?thesis .
qed

text \<open>The text that the handler parses: the body, or \<^verbatim>\<open>{}\<close> for an empty body.\<close>

lemma parsed_text_message:
  assumes "spec_message (body_text chunks) = Some m"
  shows "(if body_text chunks = [] then js ''{}'' else body_text chunks) = body_text chunks"
  using assms spec_message_Nil by auto

lemma handleChat_invalid:
  assumes "body_size chunks \<le> MAX_BODY_SIZE"
    and "read_message (if body_text chunks = [] then js ''{}'' else body_text chunks) = Inl err"
  shows "result (handleChat sv chunks res) = Some (sendJson res 400 [(js ''error'', VString err)])"
  by (simp add: handleChat_complete [OF assms(1)] assms(2))

lemma handleChat_valid:
  assumes "body_size chunks \<le> MAX_BODY_SIZE"
    and "spec_message (body_text chunks) = Some m"
    and "trim m \<noteq> []" and "length (trim m) \<le> MAX_MESSAGE_LENGTH"
  shows "result (handleChat sv chunks res) = answer sv (trim m) res"
proof -
  from read_message_of_string [OF assms(2)] assms(3,4)
  have "read_message (body_text chunks) = Inr (trim m)" by simp
  then have "read_message (if body_text chunks = [] then js ''{}'' else body_text chunks) = Inr (trim m)"
    by (simp only: parsed_text_message [OF assms(2)])
  then show ?thesis
    by (simp add: handleChat_complete [OF assms(1)])
qed

lemma statusCode_answer: "answer sv message res = Some r \<Longrightarrow> statusCode r = 200"
  by (auto simp: answer_def res_end_def writeHead_def split: option.splits if_splits prod.splits)

lemma answer_not_400: "map_option statusCode (answer sv message res) \<noteq> Some 400"
proof (cases "answer sv message res")
  case None
  then show ?thesis by simp
next
  case (Some r)
  with statusCode_answer [OF Some] show ?thesis by simp
qed

lemma handleChat_400_iff:
  assumes le: "body_size chunks \<le> MAX_BODY_SIZE"
  shows "(map_option statusCode (result (handleChat sv chunks res)) = Some 400) \<longleftrightarrow>
     (JSON_parse (body_text chunks) = None \<or> spec_message (body_text chunks) = None \<or>
      (\<exists>m. spec_message (body_text chunks) = Some m \<and>
           (trim m = [] \<or> length (trim m) > MAX_MESSAGE_LENGTH)))"
proof (cases "spec_message (body_text chunks)")
  case None
  define t where "t = (if body_text chunks = [] then js ''{}'' else body_text chunks)"
  have "spec_message t = None"
    using None by (simp add: t_def spec_message_braces)
  from read_message_no_string [OF this] obtain e where "read_message t = Inl e" ..
  from handleChat_invalid [OF le this [unfolded t_def]] None
  show ?thesis by simp
next
  case (Some m)
  from Some obtain v where "JSON_parse (body_text chunks) = Some v"
    unfolding spec_message_Some by blast
  then have parsed: "JSON_parse (body_text chunks) \<noteq> None" by simp
  show ?thesis
  proof (cases "trim m = [] \<or> length (trim m) > MAX_MESSAGE_LENGTH")
    case True
    with read_message_of_string [OF Some]
    have "\<exists>e. read_message (body_text chunks) = Inl e"
      by (cases "trim m = []") simp_all
    then obtain e where "read_message (body_text chunks) = Inl e" ..
    then have "read_message (if body_text chunks = [] then js ''{}'' else body_text chunks) = Inl e"
      by (simp only: parsed_text_message [OF Some])
    from handleChat_invalid [OF le this] True Some show ?thesis by simp
  next
    case False
    then have "trim m \<noteq> []" "length (trim m) \<le> MAX_MESSAGE_LENGTH" by simp_all
    from handleChat_valid [OF le Some this]
    have "result (handleChat sv chunks res) = answer sv (trim m) res" .
    with answer_not_400 [of sv "trim m" res]
    have "map_option statusCode (result (handleChat sv chunks res)) \<noteq> Some 400" by simp
    with False Some parsed show ?thesis by auto
  qed
qed

subsection \<open>Concrete bodies\<close>

lemma lex_string_letters:
  "lex_string (replicate n 97 @ 34 # rest) = Some (replicate n 97, rest)"
  by (induction n) (simp_all add: cons_result_def)

lemma lex_letters_body:
  "lex (js ''{\"message\":\"'' @ replicate n 97 @ js ''\"}'') =
     Some [TLBrace, TString (js ''message''), TColon, TString (replicate n 97), TRBrace]"
proof -
  have "lex (34 # replicate n 97 @ [34, 125]) = Some [TString (replicate n 97), TRBrace]"
    using lex_string_letters [of n "[125]"]
    by (simp add: is_json_ws_def cons_token_def)
  then show ?thesis
    by (simp add: js_def is_json_ws_def cons_token_def cons_result_def)
qed

lemma spec_message_letters:
  "spec_message (body_text (chunks_letters n)) = Some (replicate n 97)"
  by (simp add: body_text_def chunks_letters_def spec_message_def JSON_parse_def lex_letters_body)

lemma body_size_letters: "body_size (chunks_letters n) = n + 14"
  by (simp add: body_size_def chunks_letters_def)

lemma trim_letters: "trim (replicate n 97) = replicate n 97"
proof -
  have "dropWhile is_js_space (replicate n 97) = replicate n 97"
    by (cases n) (simp_all add: is_js_space_def)
  then show ?thesis by (simp add: trim_def)
qed

lemma spec_message_hi: "spec_message (body_text chunks_hi) = Some (js ''hi'')"
  by (simp add: body_text_def chunks_hi_def spec_message_def JSON_parse_def js_def
      is_json_ws_def cons_token_def cons_result_def)

lemma body_size_hi: "body_size chunks_hi = 16"
  by (simp add: body_size_def chunks_hi_def)

lemma trim_hi: "trim (js ''hi'') = js ''hi''"
  by (simp add: trim_def js_def is_js_space_def)

subsection \<open>The status 400\<close>

text \<open>
  Claim C2, as the code has it. For a body of at most 8192 bytes, the handler answers
  400 exactly when the body is not valid JSON, or carries no string in its field
  \<^verbatim>\<open>message\<close>, or that string is empty after trimming, or longer than 2000 code units
  after trimming; in the last case the error text names the limit of 2000 characters.
  For a body of any size that carries a message of trimmed length between 1 and 2000,
  the handler does not answer 400.
\<close>

theorem handleChat_400_characterised:
  "(body_size chunks \<le> 8192 \<longrightarrow>
      ((map_option statusCode (result (handleChat sv chunks res)) = Some 400) \<longleftrightarrow>
       (JSON_parse (body_text chunks) = None \<or> spec_message (body_text chunks) = None \<or>
        (\<exists>s. spec_message (body_text chunks) = Some s \<and>
             (trim s = [] \<or> length (trim s) > 2000))))) \<and>
   (body_size chunks \<le> 8192 \<and> spec_message (body_text chunks) = Some m \<and>
    length (trim m) > 2000 \<longrightarrow>
      result (handleChat sv chunks res) =
        Some (sendJson res 400
          [(js ''error'', VString (js ''Message too long (max 2000 characters)''))])) \<and>
   (spec_message (body_text chunks) = Some m \<and> 1 \<le> length (trim m) \<and>
    length (trim m) \<le> 2000 \<longrightarrow>
      map_option statusCode (result (handleChat sv chunks res)) \<noteq> Some 400)"
proof (intro conjI impI)
  assume "body_size chunks \<le> 8192"
  then have "body_size chunks \<le> MAX_BODY_SIZE" by (simp add: MAX_BODY_SIZE_def)
  from handleChat_400_iff [OF this, of sv res]
  show "(map_option statusCode (result (handleChat sv chunks res)) = Some 400) \<longleftrightarrow>
       (JSON_parse (body_text chunks) = None \<or> spec_message (body_text chunks) = None \<or>
        (\<exists>s. spec_message (body_text chunks) = Some s \<and>
             (trim s = [] \<or> length (trim s) > 2000)))"
    by (simp only: MAX_MESSAGE_LENGTH_def)
next
  assume a: "body_size chunks \<le> 8192 \<and> spec_message (body_text chunks) = Some m \<and>
    length (trim m) > 2000"
  then have le: "body_size chunks \<le> MAX_BODY_SIZE" by (simp add: MAX_BODY_SIZE_def)
  from a have sm: "spec_message (body_text chunks) = Some m" by simp
  from a have "trim m \<noteq> []" "length (trim m) > MAX_MESSAGE_LENGTH"
    by (auto simp: MAX_MESSAGE_LENGTH_def)
  with read_message_of_string [OF sm]
  have "read_message (body_text chunks) = Inl (js ''Message too long (max 2000 characters)'')"
    by simp
  then have "read_message (if body_text chunks = [] then js ''{}'' else body_text chunks) =
      Inl (js ''Message too long (max 2000 characters)'')"
    by (simp only: parsed_text_message [OF sm])
  from handleChat_invalid [OF le this]
  show "result (handleChat sv chunks res) =
        Some (sendJson res 400
          [(js ''error'', VString (js ''Message too long (max 2000 characters)''))])" .
next
  assume a: "spec_message (body_text chunks) = Some m \<and> 1 \<le> length (trim m) \<and>
    length (trim m) \<le> 2000"
  show "map_option statusCode (result (handleChat sv chunks res)) \<noteq> Some 400"
  proof (cases "body_size chunks \<le> MAX_BODY_SIZE")
    case True
    from a have "spec_message (body_text chunks) = Some m" "trim m \<noteq> []"
      "length (trim m) \<le> MAX_MESSAGE_LENGTH"
      by (auto simp: MAX_MESSAGE_LENGTH_def)
    from handleChat_valid [OF True this]
    have "result (handleChat sv chunks res) = answer sv (trim m) res" .
    with answer_not_400 [of sv "trim m" res] show ?thesis by simp
  next
    case False
    then have "body_size chunks > MAX_BODY_SIZE" by simp
    from handleChat_too_large [OF this, of sv res]
    obtain k where "handleChat sv chunks res =
             \<lparr>result = Some (sendJson res 413 [(js ''error'', VString (js ''Request too large''))]),
              chunks_read = Suc k, parse_input = None\<rparr>"
      by blast
    then show ?thesis by simp
  qed
qed

theorem handleChat_400_characterised_witness:
  "body_size (chunks_letters 2001) \<le> 8192 \<and>
   spec_message (body_text (chunks_letters 2001)) = Some (replicate 2001 97) \<and>
   length (trim (replicate 2001 97)) > 2000 \<and>
   result (handleChat sv_none (chunks_letters 2001) fresh_response) =
     Some (sendJson fresh_response 400
       [(js ''error'', VString (js ''Message too long (max 2000 characters)''))]) \<and>
   map_option statusCode (result (handleChat sv_none (chunks_letters 2001) fresh_response)) = Some 400 \<and>
   spec_message (body_text chunks_hi) = Some (js ''hi'') \<and>
   1 \<le> length (trim (js ''hi'')) \<and> length (trim (js ''hi'')) \<le> 2000 \<and>
   map_option statusCode (result (handleChat sv_none chunks_hi fresh_response)) \<noteq> Some 400"
proof -
  have size: "body_size (chunks_letters 2001) \<le> 8192"
    by (simp add: body_size_letters)
  have long: "length (trim (replicate 2001 97)) > 2000"
    by (simp add: trim_letters)
  note inst = handleChat_400_characterised
    [of "chunks_letters 2001" sv_none fresh_response "replicate 2001 97"]
  from inst size spec_message_letters [of 2001] long
  have r: "result (handleChat sv_none (chunks_letters 2001) fresh_response) =
     Some (sendJson fresh_response 400
       [(js ''error'', VString (js ''Message too long (max 2000 characters)''))])"
    by blast
  have hi: "1 \<le> length (trim (js ''hi''))" "length (trim (js ''hi'')) \<le> 2000"
    by (simp_all add: trim_hi)
  from handleChat_400_characterised [of chunks_hi sv_none fresh_response "js ''hi''"]
    spec_message_hi hi
  have "map_option statusCode (result (handleChat sv_none chunks_hi fresh_response)) \<noteq> Some 400"
    by blast
  with size spec_message_letters [of 2001] long r spec_message_hi hi show ?thesis
    by simp
qed

text \<open>
  Claim C2 as stated fails: a well-formed body whose message is 8200 letters has a
  message longer than 2000 characters, and the handler answers 413, not 400.
\<close>

theorem handleChat_long_message_413:
  "spec_message (body_text (chunks_letters 8200)) = Some (replicate 8200 97) \<and>
   length (trim (replicate 8200 97)) > 2000 \<and>
   map_option statusCode (result (handleChat sv_none (chunks_letters 8200) fresh_response)) = Some 413"
proof -
  have "map_option statusCode (result (handleChat sv_none (chunks_letters 8200) fresh_response)) = Some 413"
    by (simp add: handleChat_def chunks_letters_def MAX_BODY_SIZE_def)
  then show ?thesis
    by (simp add: spec_message_letters trim_letters)
qed

subsection \<open>The empty body\<close>

text \<open>
  Claim C10. For a body of zero bytes (no chunk at all, or chunks without bytes and
  text), the handler parses the text \<^verbatim>\<open>{}\<close> and answers 400 with the error
  \<^verbatim>\<open>message required\<close>, which is not the error \<^verbatim>\<open>Invalid JSON\<close>.
\<close>

theorem handleChat_empty_body:
  assumes "body_size chunks = 0" and "body_text chunks = []"
  shows "handleChat sv chunks res =
           \<lparr>result = Some (sendJson res 400 [(js ''error'', VString (js ''message required''))]),
            chunks_read = length chunks, parse_input = Some (js ''{}'')\<rparr>
         \<and> js ''message required'' \<noteq> js ''Invalid JSON''"
proof -
  from assms(1) have "body_size chunks \<le> MAX_BODY_SIZE" by simp
  from handleChat_complete [OF this, of sv res] assms(2)
  show ?thesis by (simp add: read_message_braces)
qed

theorem handleChat_empty_body_witness:
  "body_size [] = 0 \<and> body_text [] = [] \<and>
   handleChat sv_none [] fresh_response =
     \<lparr>result = Some (sendJson fresh_response 400 [(js ''error'', VString (js ''message required''))]),
      chunks_read = 0, parse_input = Some (js ''{}'')\<rparr> \<and>
   statusCode (sendJson fresh_response 400 [(js ''error'', VString (js ''message required''))]) = 400"
proof -
  have e: "body_size [] = 0" "body_text [] = []"
    by (simp_all add: body_size_def body_text_def)
  from handleChat_empty_body [OF e, of sv_none fresh_response] e show ?thesis
    by simp
qed

subsection \<open>No search results\<close>

lemma answer_no_results:
  assumes "retrieve sv message 8 = Some []"
  shows "answer sv message res =
    Some (res_end (TextBody apology)
      (writeHead 200
         (corsHeaders @ [(js ''Content-Type'', VString (js ''text/plain; charset=utf-8''))])
         res))"
  using assms by (simp add: answer_def)

lemma writeHead_content_type:
  "res_headers (writeHead status (corsHeaders @ [(js ''Content-Type'', v)]) res) (js ''Content-Type'') = Some v"
  by (simp add: writeHead_def corsHeaders_def)

text \<open>
  Claim C7. For a valid request (a body of at most 8192 bytes that carries a message of
  trimmed length between 1 and 2000) for which the retriever returns no result, the
  handler answers with status 200, the content type \<^verbatim>\<open>text/plain\<close> (with the
  parameter \<^verbatim>\<open>charset=utf-8\<close>) and the fixed apology text.
\<close>

theorem handleChat_no_results:
  assumes "body_size chunks \<le> 8192"
    and "spec_message (body_text chunks) = Some m"
    and "1 \<le> length (trim m)" and "length (trim m) \<le> 2000"
    and "retrieve sv (trim m) 8 = Some []"
  shows "\<exists>r. result (handleChat sv chunks res) = Some r \<and> statusCode r = 200 \<and>
           res_headers r (js ''Content-Type'') = Some (VString (js ''text/plain; charset=utf-8'')) \<and>
           res_body r =
             TextBody (js ''I couldn't find relevant documentation excerpts for that question. Try rephrasing or search the docs.'')"
proof -
  from assms(1) have le: "body_size chunks \<le> MAX_BODY_SIZE" by (simp add: MAX_BODY_SIZE_def)
  from assms(3,4) have "trim m \<noteq> []" "length (trim m) \<le> MAX_MESSAGE_LENGTH"
    by (auto simp: MAX_MESSAGE_LENGTH_def)
  from handleChat_valid [OF le assms(2) this]
  have "result (handleChat sv chunks res) = answer sv (trim m) res" .
  with answer_no_results [OF assms(5), of res]
  have r: "result (handleChat sv chunks res) =
    Some (res_end (TextBody apology)
      (writeHead 200
         (corsHeaders @ [(js ''Content-Type'', VString (js ''text/plain; charset=utf-8''))])
         res))"
    by simp
  have "statusCode (res_end (TextBody apology)
      (writeHead 200
         (corsHeaders @ [(js ''Content-Type'', VString (js ''text/plain; charset=utf-8''))])
         res)) = 200"
    by (simp add: res_end_def writeHead_def)
  moreover have "res_headers (res_end (TextBody apology)
      (writeHead 200
         (corsHeaders @ [(js ''Content-Type'', VString (js ''text/plain; charset=utf-8''))])
         res)) (js ''Content-Type'') = Some (VString (js ''text/plain; charset=utf-8''))"
    using writeHead_content_type [of 200 "VString (js ''text/plain; charset=utf-8'')" res]
    by (simp add: res_end_def)
  moreover have "res_body (res_end (TextBody apology)
      (writeHead 200
         (corsHeaders @ [(js ''Content-Type'', VString (js ''text/plain; charset=utf-8''))])
         res)) =
     TextBody (js ''I couldn't find relevant documentation excerpts for that question. Try rephrasing or search the docs.'')"
    by (simp add: res_end_def apology_def)
  ultimately show ?thesis using r by blast
qed

theorem handleChat_no_results_witness:
  "body_size chunks_hi \<le> 8192 \<and>
   spec_message (body_text chunks_hi) = Some (js ''hi'') \<and>
   1 \<le> length (trim (js ''hi'')) \<and> length (trim (js ''hi'')) \<le> 2000 \<and>
   retrieve sv_none (trim (js ''hi'')) 8 = Some [] \<and>
   (\<exists>r. result (handleChat sv_none chunks_hi fresh_response) = Some r \<and> statusCode r = 200 \<and>
        res_headers r (js ''Content-Type'') = Some (VString (js ''text/plain; charset=utf-8'')) \<and>
        res_body r =
          TextBody (js ''I couldn't find relevant documentation excerpts for that question. Try rephrasing or search the docs.''))"
proof -
  have a: "body_size chunks_hi \<le> 8192"
    by (simp add: body_size_hi)
  have b: "1 \<le> length (trim (js ''hi''))" "length (trim (js ''hi'')) \<le> 2000"
    by (simp_all add: trim_hi)
  have c: "retrieve sv_none (trim (js ''hi'')) 8 = Some []"
    by (simp add: sv_none_def)
  from handleChat_no_results [OF a spec_message_hi b c, of fresh_response]
  show ?thesis using a spec_message_hi b c by blast
qed

subsection \<open>Steps of the rate limiter and of the server\<close>

lemma checkRateLimit_other:
  "ip' \<noteq> ip \<Longrightarrow> snd (checkRateLimit cfg now store ip') ip = store ip"
  by (simp add: checkRateLimit_def new_window_def Let_def split: option.splits)

lemma checkRateLimit_below:
  assumes "store ip = Some \<lparr>count = c, resetAt = R\<rparr>" and "now \<le> R" and "c < RATE_LIMIT cfg"
  shows "checkRateLimit cfg now store ip =
    (\<lparr>allowed = True, remaining = RATE_LIMIT cfg - (c + 1), check_resetAt = R\<rparr>,
     store(ip \<mapsto> \<lparr>count = c + 1, resetAt = R\<rparr>))"
  using assms by (simp add: checkRateLimit_def Let_def)

lemma checkRateLimit_full:
  assumes "store ip = Some \<lparr>count = c, resetAt = R\<rparr>" and "now \<le> R" and "RATE_LIMIT cfg \<le> c"
  shows "checkRateLimit cfg now store ip =
    (\<lparr>allowed = False, remaining = 0, check_resetAt = R\<rparr>, store)"
  using assms by (simp add: checkRateLimit_def Let_def)

lemma checkRateLimit_fresh:
  assumes "store ip = None \<or> (\<exists>r. store ip = Some r \<and> now > resetAt r)"
  shows "checkRateLimit cfg now store ip =
           (\<lparr>allowed = True, remaining = RATE_LIMIT cfg - 1,
             check_resetAt = now + RATE_WINDOW_MS cfg\<rparr>,
            store(ip \<mapsto> \<lparr>count = 1, resetAt = now + RATE_WINDOW_MS cfg\<rparr>))"
  using assms by (auto simp: checkRateLimit_def new_window_def)

lemma sweep_within:
  assumes "store ip = Some \<lparr>count = c, resetAt = R\<rparr>" and "now \<le> R"
  shows "sweep now store ip = Some \<lparr>count = c, resetAt = R\<rparr>"
  using assms by (simp add: sweep_def)

lemma server_chat:
  assumes "is_chat req" and "getClientIP req = Inr ip"
  shows "server cfg sv now now2 req store =
    (case checkRateLimit cfg now store ip of
       (rateCheck, store') \<Rightarrow>
         if \<not> allowed rateCheck then
           (responded (too_many rateCheck now2 (rate_headers cfg rateCheck fresh_response)), store')
         else
           (handleChat sv (body_chunks req) (rate_headers cfg rateCheck fresh_response), store'))"
  using assms by (simp add: server_def is_chat_def)

lemma server_not_chat:
  assumes "\<not> is_chat req"
  shows "snd (server cfg sv now now2 req store) = store"
  using assms by (auto simp: server_def is_chat_def)

lemma getClientIP_total: "\<exists>ip. getClientIP req = Inr ip"
proof -
  have "\<exists>ip. (case split 44 f of [] \<Rightarrow> Inl TypeError | first # _ \<Rightarrow> Inr (trim first)) = Inr ip" for f
    using split_first [of 44 f] by auto
  then show ?thesis
    unfolding getClientIP_def
    by (simp split: option.splits header_value.splits)
qed

lemma server_store_other:
  assumes "\<not> chat_from ip (Request now now2 req)"
  shows "snd (server cfg sv now now2 req store) ip = store ip"
proof (cases "is_chat req")
  case False
  then show ?thesis by (simp add: server_not_chat)
next
  case True
  from getClientIP_total obtain ip' where ip': "getClientIP req = Inr ip'" ..
  with assms True have "ip' \<noteq> ip" by auto
  from checkRateLimit_other [OF this, of cfg now store]
  show ?thesis
    by (cases "checkRateLimit cfg now store ip'") (simp add: server_chat [OF True ip'])
qed

lemma store_after_Nil: "store_after cfg sv [] store = store"
  by (simp add: store_after_def)

lemma store_after_Sweep:
  "store_after cfg sv (Sweep now # evs) store = store_after cfg sv evs (sweep now store)"
  by (simp add: store_after_def)

lemma store_after_Request:
  "store_after cfg sv (Request now now2 req # evs) store =
   store_after cfg sv evs (snd (server cfg sv now now2 req store))"
  by (simp add: store_after_def split: prod.splits)

lemma server_store_same:
  assumes "chat_from ip (Request now now2 req)"
    and "store ip = Some \<lparr>count = c, resetAt = R\<rparr>" and "now \<le> R"
  shows "snd (server cfg sv now now2 req store) ip =
     Some \<lparr>count = count_after (RATE_LIMIT cfg) c (Suc 0), resetAt = R\<rparr>"
proof -
  from assms(1) have chat: "is_chat req" and ip: "getClientIP req = Inr ip" by simp_all
  show ?thesis
  proof (cases "c < RATE_LIMIT cfg")
    case True
    from checkRateLimit_below [where store = store and ip = ip, OF assms(2,3) True] True show ?thesis
      by (simp add: server_chat [OF chat ip] count_after_def)
  next
    case False
    then have "RATE_LIMIT cfg \<le> c" by simp
    from checkRateLimit_full [where store = store and ip = ip, OF assms(2,3) this] False assms(2) show ?thesis
      by (simp add: server_chat [OF chat ip] count_after_def)
  qed
qed

lemma count_after_step:
  "count_after N (count_after N c (Suc 0)) k = count_after N c (Suc k)"
  unfolding count_after_def by (simp add: min_def)

lemma run_window:
  assumes "store ip = Some \<lparr>count = c, resetAt = R\<rparr>"
    and "\<And>ev. ev \<in> set evs \<Longrightarrow> event_time ev \<le> R"
  shows "store_after cfg sv evs store ip =
     Some \<lparr>count = count_after (RATE_LIMIT cfg) c (length (filter (chat_from ip) evs)),
           resetAt = R\<rparr>"
  using assms
proof (induction evs arbitrary: store c)
  case Nil
  then show ?case by (simp add: count_after_def store_after_Nil)
next
  case (Cons ev evs)
  have later: "\<And>e. e \<in> set evs \<Longrightarrow> event_time e \<le> R"
    using Cons.prems(2) by simp
  have here: "event_time ev \<le> R"
    using Cons.prems(2) by simp
  show ?case
  proof (cases ev)
    case (Sweep now)
    with here have "now \<le> R" by simp
    from sweep_within [where store = store and ip = ip, OF Cons.prems(1) this]
    have "sweep now store ip = Some \<lparr>count = c, resetAt = R\<rparr>" .
    from Cons.IH [where store = "sweep now store", OF this later] Sweep show ?thesis
      by (simp add: store_after_Sweep)
  next
    case (Request now now2 req)
    with here have now: "now \<le> R" by simp
    show ?thesis
    proof (cases "chat_from ip (Request now now2 req)")
      case True
      from server_store_same [where store = store, OF True Cons.prems(1) now]
      have "snd (server cfg sv now now2 req store) ip =
        Some \<lparr>count = count_after (RATE_LIMIT cfg) c (Suc 0), resetAt = R\<rparr>" .
      from Cons.IH [where store = "snd (server cfg sv now now2 req store)", OF this later]
        Request True show ?thesis
        by (simp add: count_after_step store_after_Request)
    next
      case False
      from server_store_other [OF False] Cons.prems(1)
      have "snd (server cfg sv now now2 req store) ip = Some \<lparr>count = c, resetAt = R\<rparr>"
        by simp
      from Cons.IH [where store = "snd (server cfg sv now now2 req store)", OF this later]
        Request False show ?thesis by (auto simp: store_after_Request)
    qed
  qed
qed

lemma store_after_append:
  "store_after cfg sv (evs @ evs') store = store_after cfg sv evs' (store_after cfg sv evs store)"
proof (induction evs arbitrary: store)
  case Nil
  show ?case by (simp add: store_after_Nil)
next
  case (Cons ev evs)
  then show ?case by (cases ev) (simp_all add: store_after_Sweep store_after_Request)
qed

text \<open>Events that are not chat requests of \<open>ip\<close> leave its record alone, or a sweep deletes it.\<close>

lemma run_others:
  assumes "\<And>ev. ev \<in> set evs \<Longrightarrow> \<not> chat_from ip ev"
  shows "store_after cfg sv evs store ip = store ip \<or> store_after cfg sv evs store ip = None"
  using assms
proof (induction evs arbitrary: store)
  case Nil
  show ?case by (simp add: store_after_Nil)
next
  case (Cons ev evs)
  have later: "\<And>e. e \<in> set evs \<Longrightarrow> \<not> chat_from ip e"
    using Cons.prems by simp
  have here: "\<not> chat_from ip ev"
    using Cons.prems by simp
  show ?case
  proof (cases ev)
    case (Sweep now)
    have "sweep now store ip = store ip \<or> sweep now store ip = None"
      by (simp add: sweep_def split: option.splits)
    with Cons.IH [where store = "sweep now store", OF later] Sweep show ?thesis
      by (auto simp: store_after_Sweep)
  next
    case (Request now now2 req)
    with here have "\<not> chat_from ip (Request now now2 req)" by simp
    from server_store_other [OF this]
    have "snd (server cfg sv now now2 req store) ip = store ip" .
    with Cons.IH [where store = "snd (server cfg sv now now2 req store)", OF later] Request
    show ?thesis by (auto simp: store_after_Request)
  qed
qed

lemma too_many_response:
  "statusCode (too_many rc now2 res) = 429 \<and>
   res_headers (too_many rc now2 res) (js ''Retry-After'') =
     Some (VNumber (ceil_div_1000 (check_resetAt rc - now2))) \<and>
   res_body (too_many rc now2 res) =
     JsonBody [(js ''error'', VString (js ''Too many requests. Please wait before trying again.'')),
               (js ''retryAfter'', VNumber (ceil_div_1000 (check_resetAt rc - now2)))]"
  by (simp add: too_many_def Let_def sendJson_def res_end_def writeHead_def setHeader_def
      corsHeaders_def)

lemma server_fresh:
  assumes "chat_from ip (Request now now2 req)"
    and "store ip = None \<or> (\<exists>r. store ip = Some r \<and> now > resetAt r)"
  shows "server cfg sv now now2 req store =
    (handleChat sv (body_chunks req)
       (rate_headers cfg
          \<lparr>allowed = True, remaining = RATE_LIMIT cfg - 1,
            check_resetAt = now + RATE_WINDOW_MS cfg\<rparr> fresh_response),
     store(ip \<mapsto> \<lparr>count = 1, resetAt = now + RATE_WINDOW_MS cfg\<rparr>))"
proof -
  from assms(1) have chat: "is_chat req" and ip: "getClientIP req = Inr ip" by simp_all
  from checkRateLimit_fresh [where store = store and ip = ip, OF assms(2)]
  show ?thesis by (simp add: server_chat [OF chat ip])
qed

lemma server_below:
  assumes "chat_from ip (Request now now2 req)"
    and "store ip = Some \<lparr>count = c, resetAt = R\<rparr>" and "now \<le> R" and "c < RATE_LIMIT cfg"
  shows "fst (server cfg sv now now2 req store) =
    handleChat sv (body_chunks req)
       (rate_headers cfg
          \<lparr>allowed = True, remaining = RATE_LIMIT cfg - (c + 1), check_resetAt = R\<rparr>
          fresh_response)"
proof -
  from assms(1) have chat: "is_chat req" and ip: "getClientIP req = Inr ip" by simp_all
  from checkRateLimit_below [where store = store and ip = ip, OF assms(2,3,4)]
  show ?thesis by (simp add: server_chat [OF chat ip])
qed

lemma server_full:
  assumes "chat_from ip (Request now now2 req)"
    and "store ip = Some \<lparr>count = c, resetAt = R\<rparr>" and "now \<le> R" and "RATE_LIMIT cfg \<le> c"
  shows "fst (server cfg sv now now2 req store) =
    responded (too_many \<lparr>allowed = False, remaining = 0, check_resetAt = R\<rparr> now2
      (rate_headers cfg \<lparr>allowed = False, remaining = 0, check_resetAt = R\<rparr> fresh_response))"
proof -
  from assms(1) have chat: "is_chat req" and ip: "getClientIP req = Inr ip" by simp_all
  from checkRateLimit_full [where store = store and ip = ip, OF assms(2,3,4)]
  show ?thesis by (simp add: server_chat [OF chat ip])
qed

text \<open>The record of \<open>ip\<close> after the request that opens a window and the events in the window.\<close>

lemma window_record:
  assumes limit: "1 \<le> RATE_LIMIT cfg"
    and fresh: "store ip = None \<or> (\<exists>r. store ip = Some r \<and> t1 > resetAt r)"
    and first: "chat_from ip (Request t1 t1' r1)"
    and mid: "\<And>ev. ev \<in> set evs \<Longrightarrow> event_time ev \<le> t1 + RATE_WINDOW_MS cfg"
  shows "store_after cfg sv (Request t1 t1' r1 # evs) store ip =
    Some \<lparr>count = min (RATE_LIMIT cfg) (1 + int (length (filter (chat_from ip) evs))),
          resetAt = t1 + RATE_WINDOW_MS cfg\<rparr>"
proof -
  let ?s1 = "snd (server cfg sv t1 t1' r1 store)"
  from server_fresh [where store = store and cfg = cfg and sv = sv, OF first fresh]
  have "?s1 ip = Some \<lparr>count = 1, resetAt = t1 + RATE_WINDOW_MS cfg\<rparr>"
    by simp
  from run_window [where store = ?s1 and cfg = cfg and sv = sv, OF this mid]
  have "store_after cfg sv evs ?s1 ip =
     Some \<lparr>count = count_after (RATE_LIMIT cfg) 1 (length (filter (chat_from ip) evs)),
           resetAt = t1 + RATE_WINDOW_MS cfg\<rparr>" .
  moreover from limit
  have "count_after (RATE_LIMIT cfg) 1 (length (filter (chat_from ip) evs)) =
      min (RATE_LIMIT cfg) (1 + int (length (filter (chat_from ip) evs)))"
    by (simp add: count_after_def min_def)
  ultimately show ?thesis by (simp add: store_after_Request)
qed

subsection \<open>One window of the rate limiter\<close>

text \<open>
  Claim C1, as the code has it. Let the configured limit \<open>N\<close> be at least 1. A chat
  request of \<open>ip\<close> that finds no record, or an expired one, opens a window that resets at
  \<open>R\<close>, one window length after its clock, and is allowed. Let then any events follow
  whose clocks are not past \<open>R\<close> (requests of this and of other clients, clean-ups), \<open>k\<close>
  of them chat requests of \<open>ip\<close>. A further chat request of \<open>ip\<close> in the window is
  request number \<open>k + 2\<close> of the window: it is allowed when \<open>k + 2 \<le> N\<close>, and otherwise
  (so for request number \<open>N + 1\<close>) it is answered with status 429, a
  \<^verbatim>\<open>Retry-After\<close> header of the seconds from the second clock reading to \<open>R\<close>,
  rounded up, and a JSON body with the error text and the same number. After the
  window, and after any events that are not chat requests of \<open>ip\<close>, the next chat
  request of \<open>ip\<close> whose clock is past \<open>R\<close> is allowed and leaves a fresh record of
  count 1.
\<close>

theorem rate_limit_window:
  fixes cfg sv store ip t1 t1' r1 evs t t' r t2 t2' r2 evs2
  defines "R \<equiv> t1 + RATE_WINDOW_MS cfg"
    and "k \<equiv> length (filter (chat_from ip) evs)"
    and "s1 \<equiv> store_after cfg sv (Request t1 t1' r1 # evs) store"
    and "s2 \<equiv> store_after cfg sv (Request t1 t1' r1 # evs @ evs2) store"
  assumes limit: "1 \<le> RATE_LIMIT cfg"
    and fresh: "store ip = None \<or> (\<exists>rec. store ip = Some rec \<and> t1 > resetAt rec)"
    and first: "chat_from ip (Request t1 t1' r1)"
    and mid: "\<forall>ev \<in> set evs. event_time ev \<le> R"
    and probe: "chat_from ip (Request t t' r)" and within: "t \<le> R"
    and quiet: "\<forall>ev \<in> set evs2. \<not> chat_from ip ev"
    and again: "chat_from ip (Request t2 t2' r2)" and elapsed: "t2 > R"
  shows
   "fst (server cfg sv t1 t1' r1 store) =
      handleChat sv (body_chunks r1)
        (rate_headers cfg
           \<lparr>allowed = True, remaining = RATE_LIMIT cfg - 1, check_resetAt = R\<rparr> fresh_response) \<and>
    (2 + int k \<le> RATE_LIMIT cfg \<longrightarrow>
       fst (server cfg sv t t' r s1) =
         handleChat sv (body_chunks r)
           (rate_headers cfg
              \<lparr>allowed = True, remaining = RATE_LIMIT cfg - (2 + int k), check_resetAt = R\<rparr>
              fresh_response)) \<and>
    (2 + int k > RATE_LIMIT cfg \<longrightarrow>
       (\<exists>resp. result (fst (server cfg sv t t' r s1)) = Some resp \<and>
          statusCode resp = 429 \<and>
          res_headers resp (js ''Retry-After'') = Some (VNumber (ceil_div_1000 (R - t'))) \<and>
          res_body resp =
            JsonBody [(js ''error'', VString (js ''Too many requests. Please wait before trying again.'')),
                      (js ''retryAfter'', VNumber (ceil_div_1000 (R - t')))])) \<and>
    server cfg sv t2 t2' r2 s2 =
      (handleChat sv (body_chunks r2)
         (rate_headers cfg
            \<lparr>allowed = True, remaining = RATE_LIMIT cfg - 1,
              check_resetAt = t2 + RATE_WINDOW_MS cfg\<rparr> fresh_response),
       s2(ip \<mapsto> \<lparr>count = 1, resetAt = t2 + RATE_WINDOW_MS cfg\<rparr>))"
proof -
  have mid': "\<And>ev. ev \<in> set evs \<Longrightarrow> event_time ev \<le> t1 + RATE_WINDOW_MS cfg"
    using mid by (simp add: R_def)
  have quiet': "\<And>ev. ev \<in> set evs2 \<Longrightarrow> \<not> chat_from ip ev"
    using quiet by simp
  have rec1: "s1 ip = Some \<lparr>count = min (RATE_LIMIT cfg) (1 + int k), resetAt = R\<rparr>"
    unfolding s1_def k_def R_def
    by (rule window_record [where store = store, OF limit fresh first mid'])
  have opened: "fst (server cfg sv t1 t1' r1 store) =
      handleChat sv (body_chunks r1)
        (rate_headers cfg
           \<lparr>allowed = True, remaining = RATE_LIMIT cfg - 1, check_resetAt = R\<rparr> fresh_response)"
    using server_fresh [where store = store and cfg = cfg and sv = sv, OF first fresh]
    by (simp add: R_def)
  have below: "fst (server cfg sv t t' r s1) =
         handleChat sv (body_chunks r)
           (rate_headers cfg
              \<lparr>allowed = True, remaining = RATE_LIMIT cfg - (2 + int k), check_resetAt = R\<rparr>
              fresh_response)" if "2 + int k \<le> RATE_LIMIT cfg"
  proof -
    from that have c: "min (RATE_LIMIT cfg) (1 + int k) = 1 + int k" by simp
    from that have lt: "1 + int k < RATE_LIMIT cfg" by simp
    from rec1 have "s1 ip = Some \<lparr>count = 1 + int k, resetAt = R\<rparr>"
      by (simp only: c)
    from server_below [where store = s1 and cfg = cfg and sv = sv, OF probe this within lt]
    show ?thesis by (simp add: add.commute add.left_commute)
  qed
  have full: "\<exists>resp. result (fst (server cfg sv t t' r s1)) = Some resp \<and>
          statusCode resp = 429 \<and>
          res_headers resp (js ''Retry-After'') = Some (VNumber (ceil_div_1000 (R - t'))) \<and>
          res_body resp =
            JsonBody [(js ''error'', VString (js ''Too many requests. Please wait before trying again.'')),
                      (js ''retryAfter'', VNumber (ceil_div_1000 (R - t')))]"
    if "2 + int k > RATE_LIMIT cfg"
  proof -
    from that have c: "min (RATE_LIMIT cfg) (1 + int k) = RATE_LIMIT cfg" by simp
    from rec1 have "s1 ip = Some \<lparr>count = RATE_LIMIT cfg, resetAt = R\<rparr>"
      by (simp only: c)
    from server_full [where store = s1 and cfg = cfg and sv = sv, OF probe this within order_refl]
    have "result (fst (server cfg sv t t' r s1)) =
       Some (too_many \<lparr>allowed = False, remaining = 0, check_resetAt = R\<rparr> t'
         (rate_headers cfg \<lparr>allowed = False, remaining = 0, check_resetAt = R\<rparr> fresh_response))"
      by (simp add: responded_def)
    with too_many_response [of "\<lparr>allowed = False, remaining = 0, check_resetAt = R\<rparr>" t'
        "rate_headers cfg \<lparr>allowed = False, remaining = 0, check_resetAt = R\<rparr> fresh_response"]
    show ?thesis by simp
  qed
  have "s2 = store_after cfg sv evs2 s1"
    unfolding s1_def s2_def
    using store_after_append [of cfg sv "Request t1 t1' r1 # evs" evs2 store] by simp
  with run_others [where store = s1 and cfg = cfg and sv = sv, OF quiet']
  have "s2 ip = s1 ip \<or> s2 ip = None" by simp
  with rec1 elapsed have "s2 ip = None \<or> (\<exists>rec. s2 ip = Some rec \<and> t2 > resetAt rec)"
    by auto
  from server_fresh [where store = s2 and cfg = cfg and sv = sv, OF again this]
  have reopened: "server cfg sv t2 t2' r2 s2 =
      (handleChat sv (body_chunks r2)
         (rate_headers cfg
            \<lparr>allowed = True, remaining = RATE_LIMIT cfg - 1,
              check_resetAt = t2 + RATE_WINDOW_MS cfg\<rparr> fresh_response),
       s2(ip \<mapsto> \<lparr>count = 1, resetAt = t2 + RATE_WINDOW_MS cfg\<rparr>))" .
  from opened below full reopened show ?thesis by blast
qed

text \<open>The concrete request is a chat request of the concrete client.\<close>

lemma is_chat_req_a: "is_chat req_a"
  by (simp add: is_chat_def req_a_def)

lemma split_forwarded:
  "split 44 (js ''203.0.113.7, 10.0.0.1'') = [js ''203.0.113.7'', js '' 10.0.0.1'']"
  by (simp add: js_def)

lemma trim_ip_a: "trim (js ''203.0.113.7'') = js ''203.0.113.7''"
  by (simp add: js_def trim_def is_js_space_def)

lemma forwarded_req_a:
  "headers req_a (js ''x-forwarded-for'') = Some (HString (js ''203.0.113.7, 10.0.0.1''))"
  by (simp add: req_a_def)

lemma getClientIP_req_a: "getClientIP req_a = Inr ip_a"
  by (simp add: getClientIP_def forwarded_req_a split_forwarded trim_ip_a ip_a_def)

lemma chat_from_req_a: "chat_from ip_a (Request now now2 req_a)"
  by (simp add: is_chat_req_a getClientIP_req_a)

theorem rate_limit_window_witness:
  "1 \<le> RATE_LIMIT cfg_limit2 \<and>
   chat_from ip_a (Request 1000 1001 req_a) \<and>
   fst (server cfg_limit2 sv_none 1000 1001 req_a Map.empty) =
     handleChat sv_none chunks_hi
       (rate_headers cfg_limit2 \<lparr>allowed = True, remaining = 1, check_resetAt = 61000\<rparr>
          fresh_response) \<and>
   fst (server cfg_limit2 sv_none 3000 3005 req_a
          (store_after cfg_limit2 sv_none [Request 1000 1001 req_a, Sweep 1500] Map.empty)) =
     handleChat sv_none chunks_hi
       (rate_headers cfg_limit2 \<lparr>allowed = True, remaining = 0, check_resetAt = 61000\<rparr>
          fresh_response) \<and>
   (\<exists>resp.
      result (fst (server cfg_limit2 sv_none 3000 3005 req_a
        (store_after cfg_limit2 sv_none
           [Request 1000 1001 req_a, Sweep 1500, Request 2000 2001 req_a] Map.empty))) = Some resp \<and>
      statusCode resp = 429 \<and>
      res_headers resp (js ''Retry-After'') = Some (VNumber 58) \<and>
      res_body resp =
        JsonBody [(js ''error'', VString (js ''Too many requests. Please wait before trying again.'')),
                  (js ''retryAfter'', VNumber 58)]) \<and>
   fst (server cfg_limit2 sv_none 70001 70002 req_a
          (store_after cfg_limit2 sv_none
             [Request 1000 1001 req_a, Sweep 1500, Request 2000 2001 req_a, Sweep 70000] Map.empty)) =
     handleChat sv_none chunks_hi
       (rate_headers cfg_limit2 \<lparr>allowed = True, remaining = 1, check_resetAt = 130001\<rparr>
          fresh_response)"
proof -
  have limit: "1 \<le> RATE_LIMIT cfg_limit2"
    by (simp add: cfg_limit2_def)
  have fresh: "Map.empty ip_a = None \<or> (\<exists>rec. Map.empty ip_a = Some rec \<and> 1000 > resetAt rec)"
    by simp
  have quiet: "\<forall>ev \<in> set [Sweep 70000]. \<not> chat_from ip_a ev"
    by simp
  have elapsed: "(70001::int) > 1000 + RATE_WINDOW_MS cfg_limit2"
    by (simp add: cfg_limit2_def)
  have within: "(3000::int) \<le> 1000 + RATE_WINDOW_MS cfg_limit2"
    by (simp add: cfg_limit2_def)
  have mid1: "\<forall>ev \<in> set [Sweep 1500]. event_time ev \<le> 1000 + RATE_WINDOW_MS cfg_limit2"
    by (simp add: cfg_limit2_def)
  have mid2: "\<forall>ev \<in> set [Sweep 1500, Request 2000 2001 req_a].
      event_time ev \<le> 1000 + RATE_WINDOW_MS cfg_limit2"
    by (simp add: cfg_limit2_def)
  have k1: "length (filter (chat_from ip_a) [Sweep 1500]) = 0"
    by simp
  have k2: "length (filter (chat_from ip_a) [Sweep 1500, Request 2000 2001 req_a]) = 1"
    by (simp add: is_chat_req_a getClientIP_req_a)
  note second = rate_limit_window
    [where cfg = cfg_limit2 and sv = sv_none and store = Map.empty and ip = ip_a
       and ?t1.0 = 1000 and t1' = 1001 and ?r1.0 = req_a and evs = "[Sweep 1500]"
       and t = 3000 and t' = 3005 and r = req_a and ?evs2.0 = "[Sweep 70000]"
       and ?t2.0 = 70001 and t2' = 70002 and ?r2.0 = req_a,
     OF limit fresh chat_from_req_a mid1 chat_from_req_a within quiet chat_from_req_a elapsed]
  note third = rate_limit_window
    [where cfg = cfg_limit2 and sv = sv_none and store = Map.empty and ip = ip_a
       and ?t1.0 = 1000 and t1' = 1001 and ?r1.0 = req_a
       and evs = "[Sweep 1500, Request 2000 2001 req_a]"
       and t = 3000 and t' = 3005 and r = req_a and ?evs2.0 = "[Sweep 70000]"
       and ?t2.0 = 70001 and t2' = 70002 and ?r2.0 = req_a,
     OF limit fresh chat_from_req_a mid2 chat_from_req_a within quiet chat_from_req_a elapsed]
  have body: "body_chunks req_a = chunks_hi"
    by (simp add: req_a_def)
  have c58: "ceil_div_1000 (1000 + 60000 - 3005) = 58"
    by (simp add: ceil_div_1000_def)
  from second have a1: "fst (server cfg_limit2 sv_none 1000 1001 req_a Map.empty) =
     handleChat sv_none chunks_hi
       (rate_headers cfg_limit2 \<lparr>allowed = True, remaining = 1, check_resetAt = 61000\<rparr>
          fresh_response)"
    by (simp add: body cfg_limit2_def)
  from second have a2: "fst (server cfg_limit2 sv_none 3000 3005 req_a
          (store_after cfg_limit2 sv_none [Request 1000 1001 req_a, Sweep 1500] Map.empty)) =
     handleChat sv_none chunks_hi
       (rate_headers cfg_limit2 \<lparr>allowed = True, remaining = 0, check_resetAt = 61000\<rparr>
          fresh_response)"
    unfolding k1 by (simp add: body cfg_limit2_def)
  from third have a3: "\<exists>resp.
      result (fst (server cfg_limit2 sv_none 3000 3005 req_a
        (store_after cfg_limit2 sv_none
           [Request 1000 1001 req_a, Sweep 1500, Request 2000 2001 req_a] Map.empty))) = Some resp \<and>
      statusCode resp = 429 \<and>
      res_headers resp (js ''Retry-After'') = Some (VNumber 58) \<and>
      res_body resp =
        JsonBody [(js ''error'', VString (js ''Too many requests. Please wait before trying again.'')),
                  (js ''retryAfter'', VNumber 58)]"
    unfolding k2 using c58 by (simp add: cfg_limit2_def)
  from third have a4: "fst (server cfg_limit2 sv_none 70001 70002 req_a
          (store_after cfg_limit2 sv_none
             [Request 1000 1001 req_a, Sweep 1500, Request 2000 2001 req_a, Sweep 70000] Map.empty)) =
     handleChat sv_none chunks_hi
       (rate_headers cfg_limit2 \<lparr>allowed = True, remaining = 1, check_resetAt = 130001\<rparr>
          fresh_response)"
    by (simp add: body cfg_limit2_def)
  from limit chat_from_req_a a1 a2 a3 a4 show ?thesis by blast
qed

text \<open>
  Claim C1 as stated fails for a configured limit of 0: the first request of a window,
  which is request number N + 1, is answered by the chat handler (here with 200), not
  with 429.
\<close>

theorem first_request_with_limit_0:
  "RATE_LIMIT cfg_limit0 = 0 \<and>
   chat_from ip_a (Request 1000 1001 req_a) \<and>
   map_option statusCode (result (fst (server cfg_limit0 sv_none 1000 1001 req_a Map.empty))) =
     Some 200"
proof -
  have fresh: "Map.empty ip_a = None \<or> (\<exists>r. Map.empty ip_a = Some r \<and> 1000 > resetAt r)"
    by simp
  define res where "res =
    rate_headers cfg_limit0
      \<lparr>allowed = True, remaining = RATE_LIMIT cfg_limit0 - 1,
        check_resetAt = 1000 + RATE_WINDOW_MS cfg_limit0\<rparr> fresh_response"
  from server_fresh [where store = Map.empty and cfg = cfg_limit0 and sv = sv_none,
      OF chat_from_req_a fresh]
  have served: "fst (server cfg_limit0 sv_none 1000 1001 req_a Map.empty) =
      handleChat sv_none chunks_hi res"
    by (simp add: res_def req_a_def)
  have le: "body_size chunks_hi \<le> MAX_BODY_SIZE"
    by (simp add: body_size_hi MAX_BODY_SIZE_def)
  have "trim (js ''hi'') \<noteq> []" "length (trim (js ''hi'')) \<le> MAX_MESSAGE_LENGTH"
    by (simp_all add: trim_hi MAX_MESSAGE_LENGTH_def)
  from handleChat_valid [OF le spec_message_hi this]
  have "result (handleChat sv_none chunks_hi res) = answer sv_none (trim (js ''hi'')) res" .
  moreover have "retrieve sv_none (trim (js ''hi'')) 8 = Some []"
    by (simp add: sv_none_def)
  from answer_no_results [OF this]
  have "map_option statusCode (answer sv_none (trim (js ''hi'')) res) = Some 200"
    by (simp add: res_end_def writeHead_def)
  ultimately have "map_option statusCode (result (handleChat sv_none chunks_hi res)) = Some 200"
    by simp
  with served chat_from_req_a show ?thesis
    by (simp add: cfg_limit0_def)
qed

subsection \<open>The rate-limit headers\<close>

lemma writeHead_keeps:
  assumes "name \<notin> fst ` set hs"
  shows "res_headers (writeHead status hs res) name = res_headers res name"
proof -
  from assms have "map_of (rev hs) name = None"
    by (simp add: map_of_eq_None_iff)
  then show ?thesis
    by (simp add: writeHead_def map_add_def)
qed

lemma sendJson_keeps:
  assumes "name \<notin> fst ` set corsHeaders" and "name \<noteq> js ''Content-Type''"
  shows "res_headers (sendJson res status b) name = res_headers res name"
proof -
  from assms have "name \<notin> fst ` set (corsHeaders @ [(js ''Content-Type'', VString (js ''application/json''))])"
    by simp
  from writeHead_keeps [OF this] show ?thesis
    by (simp add: sendJson_def res_end_def)
qed

lemma answer_keeps:
  assumes "name \<notin> fst ` set corsHeaders" and "name \<noteq> js ''Content-Type''"
    and "name \<noteq> js ''Transfer-Encoding''"
    and "answer sv message res = Some resp"
  shows "res_headers resp name = res_headers res name"
proof (cases "retrieve sv message 8")
  case None
  with assms(4) show ?thesis by (simp add: answer_def)
next
  case (Some results)
  show ?thesis
  proof (cases "length results = 0")
    case True
    from assms(1,2)
    have "name \<notin> fst ` set (corsHeaders @ [(js ''Content-Type'', VString (js ''text/plain; charset=utf-8''))])"
      by simp
    from writeHead_keeps [OF this] assms(4) Some True show ?thesis
      by (auto simp: answer_def res_end_def)
  next
    case False
    obtain tokens ok where s: "streamOpenAI sv (systemPrompt results) message = (tokens, ok)"
      by (cases "streamOpenAI sv (systemPrompt results) message")
    from assms(1,2,3)
    have "name \<notin> fst ` set (corsHeaders @
                       [(js ''Content-Type'', VString (js ''text/plain; charset=utf-8'')),
                        (js ''Transfer-Encoding'', VString (js ''chunked''))])"
      by simp
    from writeHead_keeps [OF this] assms(4) Some False s show ?thesis
      by (auto simp: answer_def res_end_def)
  qed
qed

lemma handleChat_keeps:
  assumes "name \<notin> fst ` set corsHeaders" and "name \<noteq> js ''Content-Type''"
    and "name \<noteq> js ''Transfer-Encoding''"
    and "result (handleChat sv chunks res) = Some resp"
  shows "res_headers resp name = res_headers res name"
proof (cases "read_body chunks [] 0 0")
  case (TooLarge n)
  with assms(4) have "resp = sendJson res 413 [(js ''error'', VString (js ''Request too large''))]"
    by (simp add: handleChat_def)
  with sendJson_keeps [OF assms(1,2)] show ?thesis by simp
next
  case (Complete b n)
  define t where "t = (if b = [] then js ''{}'' else b)"
  show ?thesis
  proof (cases "read_message t")
    case (Inl err)
    with assms(4) Complete have "resp = sendJson res 400 [(js ''error'', VString err)]"
      by (simp add: handleChat_def t_def Let_def)
    with sendJson_keeps [OF assms(1,2)] show ?thesis by simp
  next
    case (Inr message)
    with assms(4) Complete have "answer sv message res = Some resp"
      by (simp add: handleChat_def t_def Let_def)
    from answer_keeps [OF assms(1,2,3) this] show ?thesis .
  qed
qed

lemma rate_limit_names:
  "js ''X-RateLimit-Limit'' \<notin> fst ` set corsHeaders"
  "js ''X-RateLimit-Remaining'' \<notin> fst ` set corsHeaders"
  "js ''X-RateLimit-Reset'' \<notin> fst ` set corsHeaders"
  by (simp_all add: corsHeaders_def)

lemma rate_headers_values:
  "res_headers (rate_headers cfg rc res) (js ''X-RateLimit-Limit'') = Some (VNumber (RATE_LIMIT cfg))"
  "res_headers (rate_headers cfg rc res) (js ''X-RateLimit-Remaining'') =
     Some (VNumber (max 0 (remaining rc)))"
  "res_headers (rate_headers cfg rc res) (js ''X-RateLimit-Reset'') =
     Some (VNumber (ceil_div_1000 (check_resetAt rc)))"
  by (simp_all add: rate_headers_def setHeader_def)

lemma too_many_keeps:
  assumes "name \<notin> fst ` set corsHeaders" and "name \<noteq> js ''Content-Type''"
    and "name \<noteq> js ''Retry-After''"
  shows "res_headers (too_many rc now2 res) name = res_headers res name"
  using sendJson_keeps [OF assms(1,2)] assms(3)
  by (simp add: too_many_def Let_def setHeader_def)

text \<open>The response to a chat request carries every header that \<open>rate_headers\<close> set.\<close>

lemma server_chat_keeps:
  assumes chat: "is_chat req" and ip: "getClientIP req = Inr ip"
    and resp: "result (fst (server cfg sv now now2 req store)) = Some resp"
    and name: "name \<notin> fst ` set corsHeaders" "name \<noteq> js ''Content-Type''"
      "name \<noteq> js ''Transfer-Encoding''" "name \<noteq> js ''Retry-After''"
  shows "res_headers resp name =
    res_headers (rate_headers cfg (fst (checkRateLimit cfg now store ip)) fresh_response) name"
proof -
  obtain rc store' where c: "checkRateLimit cfg now store ip = (rc, store')"
    by (cases "checkRateLimit cfg now store ip")
  show ?thesis
  proof (cases "allowed rc")
    case True
    with resp c have "result (handleChat sv (body_chunks req) (rate_headers cfg rc fresh_response)) = Some resp"
      by (simp add: server_chat [OF chat ip])
    from handleChat_keeps [OF name(1,2,3) this] c show ?thesis by simp
  next
    case False
    with resp c have "resp = too_many rc now2 (rate_headers cfg rc fresh_response)"
      by (simp add: server_chat [OF chat ip] responded_def)
    with too_many_keeps [OF name(1,2,4)] c show ?thesis by simp
  qed
qed

text \<open>
  Claim C6. Every response to a POST /chat request, whether the request is allowed,
  rate-limited (429) or fails validation (400, 413), carries \<^verbatim>\<open>X-RateLimit-Limit\<close>
  with the configured limit, \<^verbatim>\<open>X-RateLimit-Remaining\<close> with the remaining count of
  the rate check floored at zero, which is never negative, and \<^verbatim>\<open>X-RateLimit-Reset\<close>
  with the reset time of the window in epoch seconds, rounded up.
\<close>

theorem chat_response_rate_headers:
  assumes "is_chat req" and "getClientIP req = Inr ip"
    and "result (fst (server cfg sv now now2 req store)) = Some resp"
  shows "res_headers resp (js ''X-RateLimit-Limit'') = Some (VNumber (RATE_LIMIT cfg)) \<and>
    (\<exists>left. res_headers resp (js ''X-RateLimit-Remaining'') = Some (VNumber left) \<and> 0 \<le> left \<and>
       left = max 0 (remaining (fst (checkRateLimit cfg now store ip)))) \<and>
    (\<exists>secs. res_headers resp (js ''X-RateLimit-Reset'') = Some (VNumber secs) \<and>
       1000 * (secs - 1) < check_resetAt (fst (checkRateLimit cfg now store ip)) \<and>
       check_resetAt (fst (checkRateLimit cfg now store ip)) \<le> 1000 * secs)"
proof -
  let ?rc = "fst (checkRateLimit cfg now store ip)"
  have "res_headers resp (js ''X-RateLimit-Limit'') =
      res_headers (rate_headers cfg ?rc fresh_response) (js ''X-RateLimit-Limit'')"
    by (rule server_chat_keeps [OF assms rate_limit_names(1)]) simp_all
  then have limit: "res_headers resp (js ''X-RateLimit-Limit'') = Some (VNumber (RATE_LIMIT cfg))"
    by (simp only: rate_headers_values)
  have "res_headers resp (js ''X-RateLimit-Remaining'') =
      res_headers (rate_headers cfg ?rc fresh_response) (js ''X-RateLimit-Remaining'')"
    by (rule server_chat_keeps [OF assms rate_limit_names(2)]) simp_all
  then have left: "res_headers resp (js ''X-RateLimit-Remaining'') =
      Some (VNumber (max 0 (remaining ?rc)))"
    by (simp only: rate_headers_values)
  have "res_headers resp (js ''X-RateLimit-Reset'') =
      res_headers (rate_headers cfg ?rc fresh_response) (js ''X-RateLimit-Reset'')"
    by (rule server_chat_keeps [OF assms rate_limit_names(3)]) simp_all
  then have reset: "res_headers resp (js ''X-RateLimit-Reset'') =
      Some (VNumber (ceil_div_1000 (check_resetAt ?rc)))"
    by (simp only: rate_headers_values)
  have "(0::int) \<le> max 0 (remaining ?rc)" by simp
  with limit left reset ceil_div_1000_bounds [of "check_resetAt ?rc"] show ?thesis
    by blast
qed

lemma check_store_full:
  "checkRateLimit cfg_limit2 3000 store_full ip_a =
     (\<lparr>allowed = False, remaining = 0, check_resetAt = 61000\<rparr>, store_full)"
proof -
  have "store_full ip_a = Some \<lparr>count = 2, resetAt = 61000\<rparr>"
    by (simp add: store_full_def)
  from checkRateLimit_full [where store = store_full and ip = ip_a and cfg = cfg_limit2
      and now = 3000, OF this]
  show ?thesis by (simp add: cfg_limit2_def)
qed

lemma server_store_full:
  "result (fst (server cfg_limit2 sv_none 3000 3005 req_a store_full)) = Some resp_429"
  by (simp add: server_chat [OF is_chat_req_a getClientIP_req_a] check_store_full
      responded_def resp_429_def)

theorem chat_response_rate_headers_witness:
  "is_chat req_a \<and> getClientIP req_a = Inr ip_a \<and>
   result (fst (server cfg_limit2 sv_none 3000 3005 req_a store_full)) = Some resp_429 \<and>
   statusCode resp_429 = 429 \<and>
   res_headers resp_429 (js ''X-RateLimit-Limit'') = Some (VNumber 2) \<and>
   res_headers resp_429 (js ''X-RateLimit-Remaining'') = Some (VNumber 0) \<and>
   res_headers resp_429 (js ''X-RateLimit-Reset'') = Some (VNumber 61)"
proof -
  from chat_response_rate_headers [OF is_chat_req_a getClientIP_req_a server_store_full]
  obtain left secs where
    limit: "res_headers resp_429 (js ''X-RateLimit-Limit'') = Some (VNumber (RATE_LIMIT cfg_limit2))"
    and left: "res_headers resp_429 (js ''X-RateLimit-Remaining'') = Some (VNumber left)"
      "left = max 0 (remaining (fst (checkRateLimit cfg_limit2 3000 store_full ip_a)))"
    and secs: "res_headers resp_429 (js ''X-RateLimit-Reset'') = Some (VNumber secs)"
      "1000 * (secs - 1) < check_resetAt (fst (checkRateLimit cfg_limit2 3000 store_full ip_a))"
      "check_resetAt (fst (checkRateLimit cfg_limit2 3000 store_full ip_a)) \<le> 1000 * secs"
    by blast
  from left have "left = 0" by (simp add: check_store_full)
  moreover from secs(2,3) have "secs = 61" by (simp add: check_store_full)
  moreover have "statusCode resp_429 = 429"
    using too_many_response by (simp add: resp_429_def)
  ultimately show ?thesis
    using limit left(1) secs(1) is_chat_req_a getClientIP_req_a server_store_full
    by (simp add: cfg_limit2_def)
qed

subsection \<open>The store of the server and the store of the factory\<close>

lemma normalize_lance_db:
  "normalize (js ''/srv/openclaw/scripts/docs-chat/.lance-db'') =
     js ''/srv/openclaw/scripts/docs-chat/.lance-db''"
  by (simp add: normalize_def js_def)

lemma normalize_lancedb:
  "normalize (js ''/srv/openclaw/scripts/docs-chat/rag/../.lancedb'') =
     js ''/srv/openclaw/scripts/docs-chat/.lancedb''"
  by (simp add: normalize_def js_def)

text \<open>
  Claim C5 fails on the code. With \<^verbatim>\<open>DOCS_CHAT_DB\<close> unset, the store that
  \<^verbatim>\<open>serve.ts\<close> constructs is rooted at \<^verbatim>\<open>.lance-db\<close> beside the server, and
  the store that \<^verbatim>\<open>createStore()\<close> constructs in local mode is rooted at
  \<^verbatim>\<open>.lancedb\<close>: the two are different stores, whatever the dimensionality.
\<close>

theorem serve_store_is_not_factory_store:
  "env_local (js ''DOCS_CHAT_DB'') = None \<and>
   detectStoreMode env_local = lancedb \<and>
   serve_store docs_chat_dir env_local 3072 =
     LanceDocsStore (js ''/srv/openclaw/scripts/docs-chat/.lance-db'') 3072 \<and>
   createStore docs_chat_dir env_local None None =
     (LanceDocsStore (js ''/srv/openclaw/scripts/docs-chat/.lancedb'') 3072, lancedb) \<and>
   serve_store docs_chat_dir env_local 3072 \<noteq> fst (createStore docs_chat_dir env_local None None)"
proof -
  have unset: "env_local (js ''DOCS_CHAT_DB'') = None"
    by (simp add: env_local_def)
  have mode: "detectStoreMode env_local = lancedb"
    by (simp add: detectStoreMode_def env_local_def js_and_def truthy_def)
  have "docs_chat_dir @ [47] @ js ''.lance-db'' = js ''/srv/openclaw/scripts/docs-chat/.lance-db''"
    by (simp add: docs_chat_dir_def js_def)
  then have "defaultDbPath docs_chat_dir = js ''/srv/openclaw/scripts/docs-chat/.lance-db''"
    by (simp add: defaultDbPath_def path_join_def normalize_lance_db)
  with unset have served: "serve_store docs_chat_dir env_local 3072 =
      LanceDocsStore (js ''/srv/openclaw/scripts/docs-chat/.lance-db'') 3072"
    by (simp add: serve_store_def dbPath_def js_or_def truthy_def)
  have "(docs_chat_dir @ js ''/rag'') @ [47] @ js ''../.lancedb'' =
      js ''/srv/openclaw/scripts/docs-chat/rag/../.lancedb''"
    by (simp add: docs_chat_dir_def js_def)
  then have "DEFAULT_LANCEDB_PATH docs_chat_dir = js ''/srv/openclaw/scripts/docs-chat/.lancedb''"
    by (simp add: DEFAULT_LANCEDB_PATH_def path_resolve_def normalize_lancedb)
  with mode have made: "createStore docs_chat_dir env_local None None =
     (LanceDocsStore (js ''/srv/openclaw/scripts/docs-chat/.lancedb'') 3072, lancedb)"
    by (simp add: createStore_def VECTOR_DIM_def)
  from unset mode served made show ?thesis by simp
qed

end
